theory Spec2Isabelle
  imports Main "HOL-Library.Word" "HOL-Library.AList"
begin

section \<open>Strings\<close>

text \<open>
  The bot is a Node.js program (\<^verbatim>\<open>src/bot.js\<close>); its strings are sequences of
  UTF-16 code units, modelled as lists of 16-bit words. \<open>js\<close> embeds an ASCII
  literal. The character classes are the ones the regular expressions of
  \<^verbatim>\<open>cleanFileName\<close> use: \<open>is_space\<close> is \<^verbatim>\<open>\s\<close> (white space and
  line terminators, also what \<^verbatim>\<open>trim()\<close> strips), \<open>is_word\<close> is
  \<^verbatim>\<open>\w\<close>, and \<open>is_punct\<close> is the bracket and punctuation class of the third
  replacement.
\<close>

type_synonym jschar = "16 word"
type_synonym jsstring = "jschar list"

definition js :: "string \<Rightarrow> jsstring" where
  "js s = map (\<lambda>c. of_nat (of_char c)) s"

definition is_space :: "jschar \<Rightarrow> bool" where
  "is_space c = ((0x09 \<le> c \<and> c \<le> 0x0D) \<or> c = 0x20 \<or> c = 0xA0 \<or> c = 0x1680
     \<or> (0x2000 \<le> c \<and> c \<le> 0x200A) \<or> c = 0x2028 \<or> c = 0x2029 \<or> c = 0x202F
     \<or> c = 0x205F \<or> c = 0x3000 \<or> c = 0xFEFF)"

definition is_word :: "jschar \<Rightarrow> bool" where
  "is_word c = ((0x30 \<le> c \<and> c \<le> 0x39) \<or> (0x41 \<le> c \<and> c \<le> 0x5A)
     \<or> (0x61 \<le> c \<and> c \<le> 0x7A) \<or> c = 0x5F)"

definition is_punct :: "jschar \<Rightarrow> bool" where
  "is_punct c = (c \<in> {0x5B, 0x5D, 0x28, 0x29, 0x7B, 0x7D, 0x2E, 0x3B, 0x3A, 0x7E, 0x7C,
     0x2C, 0x5F, 0x2D, 0x2B})"

text \<open>
  The first replacement, \<^verbatim>\<open>/\.(mkv|mp4|avi|mov|flv|wmv|webm|m4v)$/i\<close>, removes one
  extension at the very end of the input. Under the \<^verbatim>\<open>i\<close> flag (without
  \<^verbatim>\<open>u\<close>) a code unit matches an ASCII letter of the pattern exactly when it is
  that letter in either case, so the comparison lower-cases ASCII only. At most one
  alternative can match: \<^verbatim>\<open>webm\<close> needs the dot five places from the end and
  a \<^verbatim>\<open>w\<close> where the others need the dot.
\<close>

definition lower_ascii :: "jschar \<Rightarrow> jschar" where
  "lower_ascii c = (if 0x41 \<le> c \<and> c \<le> 0x5A then c + 0x20 else c)"

definition video_exts :: "jsstring list" where
  "video_exts = map js [''mkv'', ''mp4'', ''avi'', ''mov'', ''flv'', ''wmv'', ''webm'', ''m4v'']"

definition ext_at_end :: "jsstring \<Rightarrow> jsstring \<Rightarrow> bool" where
  "ext_at_end e s = (length e < length s \<and>
     map lower_ascii (drop (length s - Suc (length e)) s) = 0x2E # e)"

definition strip_ext :: "jsstring \<Rightarrow> jsstring" where
  "strip_ext s = (case find (\<lambda>e. ext_at_end e s) video_exts of
       None \<Rightarrow> s
     | Some e \<Rightarrow> take (length s - Suc (length e)) s)"

text \<open>
  The second replacement, \<^verbatim>\<open>/@\w+/g\<close>: scanning from the left, an
  \<^verbatim>\<open>@\<close> followed by a word character is removed with the longest run of word
  characters after it. Then every punctuation character becomes a space
  (\<open>blank_punct\<close>), every run of white space becomes one space
  (\<open>collapse_spaces\<close>, \<^verbatim>\<open>/\s+/g\<close>), and the result is trimmed.
\<close>

function strip_mentions :: "jsstring \<Rightarrow> jsstring" where
  "strip_mentions [] = []"
| "strip_mentions (c # cs) =
     (if c = 0x40 \<and> cs \<noteq> [] \<and> is_word (hd cs)
      then strip_mentions (dropWhile is_word cs)
      else c # strip_mentions cs)"
  by pat_completeness auto
termination
  by (relation "measure length") (auto simp: less_Suc_eq_le length_dropWhile_le)

definition blank_punct :: "jsstring \<Rightarrow> jsstring" where
  "blank_punct s = map (\<lambda>c. if is_punct c then 0x20 else c) s"

function collapse_spaces :: "jsstring \<Rightarrow> jsstring" where
  "collapse_spaces [] = []"
| "collapse_spaces (c # cs) =
     (if is_space c then 0x20 # collapse_spaces (dropWhile is_space cs)
      else c # collapse_spaces cs)"
  by pat_completeness auto
termination
  by (relation "measure length") (auto simp: less_Suc_eq_le length_dropWhile_le)

definition trim :: "jsstring \<Rightarrow> jsstring" where
  "trim s = rev (dropWhile is_space (rev (dropWhile is_space s)))"

definition cleanFileName :: "jsstring \<Rightarrow> jsstring" where
  "cleanFileName text = trim (collapse_spaces (blank_punct (strip_mentions (strip_ext text))))"

text \<open>
  Two properties of a normalized name: no \<^verbatim>\<open>@\<close> is followed by a word
  character, and no two white-space characters are adjacent.
\<close>

abbreviation no_mention :: "jsstring \<Rightarrow> bool" where
  "no_mention \<equiv> successively (\<lambda>c d. \<not> (c = 0x40 \<and> is_word d))"

abbreviation single_spaced :: "jsstring \<Rightarrow> bool" where
  "single_spaced \<equiv> successively (\<lambda>c d. \<not> (is_space c \<and> is_space d))"

text \<open>
  \<^verbatim>\<open>startsWith\<close>, \<^verbatim>\<open>split\<close>, and \<open>arg1\<close> for the
  \<^verbatim>\<open>data.split(':')[1]\<close> of the callback handler (every caller has checked a
  prefix that ends in a colon, so the second field exists). \<open>is_custom_id\<close> is the
  test \<^verbatim>\<open>/^F\d{4}$/i\<close>.
\<close>

definition startsWith :: "jsstring \<Rightarrow> jsstring \<Rightarrow> bool" where
  "startsWith p s = (take (length p) s = p)"

fun split_on :: "jschar \<Rightarrow> jsstring \<Rightarrow> jsstring list" where
  "split_on sep [] = [[]]"
| "split_on sep (c # cs) =
     (if c = sep then [] # split_on sep cs
      else (case split_on sep cs of
              [] \<Rightarrow> [[c]]
            | p # ps \<Rightarrow> (c # p) # ps))"

definition arg1 :: "jsstring \<Rightarrow> jsstring" where
  "arg1 data = (case split_on 0x3A data of _ # a # _ \<Rightarrow> a | _ \<Rightarrow> [])"

definition is_digit :: "jschar \<Rightarrow> bool" where
  "is_digit c = (0x30 \<le> c \<and> c \<le> 0x39)"

definition is_custom_id :: "jsstring \<Rightarrow> bool" where
  "is_custom_id t = (length t = 5 \<and> (hd t = 0x46 \<or> hd t = 0x66) \<and> list_all is_digit (tl t))"

text \<open>
  \<^verbatim>\<open>String(n)\<close> for a natural number is its decimal numeral;
  \<open>format_id\<close> is \<^verbatim>\<open>'F' + String(doc.seq).padStart(4, '0')\<close> of
  \<^verbatim>\<open>nextSequence\<close>, and \<open>id_number\<close> reads the number of an id back.
  The counter is a natural number here; the loss of precision of a JavaScript number
  beyond \<open>2^53\<close> is not modelled.
\<close>

fun String_of_nat :: "nat \<Rightarrow> jsstring" where
  "String_of_nat n =
     (if n < 10 then [0x30 + of_nat n]
      else String_of_nat (n div 10) @ [0x30 + of_nat (n mod 10)])"

declare String_of_nat.simps [simp del]

definition String_of_int :: "int \<Rightarrow> jsstring" where
  "String_of_int i = (if i < 0 then 0x2D # String_of_nat (nat (- i)) else String_of_nat (nat i))"

definition padStart :: "nat \<Rightarrow> jschar \<Rightarrow> jsstring \<Rightarrow> jsstring" where
  "padStart k c s = replicate (k - length s) c @ s"

definition format_id :: "nat \<Rightarrow> jsstring" where
  "format_id n = 0x46 # padStart 4 0x30 (String_of_nat n)"

definition id_number :: "jsstring \<Rightarrow> nat" where
  "id_number cid = foldl (\<lambda>a c. 10 * a + unat (c - 0x30)) 0 (tl cid)"

definition generateAttributes :: "(jsstring \<Rightarrow> jsstring) \<Rightarrow> jsstring \<Rightarrow> jsstring list" where
  "generateAttributes lower t = filter (\<lambda>t. t \<noteq> []) (split_on 0x20 (lower t))"

section \<open>Configuration, documents and the store\<close>

text \<open>
  The configuration read from the environment at start-up: the administrator set, the
  channel of the forced subscription (\<open>None\<close> when the variable is missing; the
  empty string is falsy as well), and the two numeric limits. Three functions of the
  runtime and of the database driver are parameters, since their tables are not part of
  the repository: the Unicode case mappings \<^verbatim>\<open>toLowerCase\<close> and
  \<^verbatim>\<open>toUpperCase\<close>, and \<open>castable\<close>, which says whether a string
  casts to an ObjectId (a query by \<^verbatim>\<open>_id\<close> with any other string raises).
\<close>

record config =
  ADMIN_SET :: "jsstring set"
  FORCE_CHANNEL_ID :: "jsstring option"
  DAILY_LIMIT_NUM :: int
  RESULTS_PER_PAGE_NUM :: nat
  toLowerCase :: "jsstring \<Rightarrow> jsstring"
  toUpperCase :: "jsstring \<Rightarrow> jsstring"
  castable :: "jsstring \<Rightarrow> bool"

text \<open>
  The documents. \<open>descr\<close> holds the fields that a pending upload and a catalog
  record share; \<^verbatim>\<open>type\<close> is \<open>ftype\<close>. Timestamps
  (\<^verbatim>\<open>uploaded_at\<close>, \<^verbatim>\<open>created_at\<close>, \<^verbatim>\<open>joinedAt\<close>,
  \<^verbatim>\<open>savedAt\<close>) are left out: time is not modelled, a collection keeps its
  insertion order, and the expiry of a pending upload or of a cache key is an event of its
  own. Of a user only the id is kept.

  The store is one record: the six collections and the two key spaces of the cache
  (\<^verbatim>\<open>isMember:<id>\<close> and \<^verbatim>\<open>search:<id>\<close>, each value with the
  time-to-live it was written with). Collections without a natural key are lists in
  insertion order; pending uploads are keyed by their \<^verbatim>\<open>_id\<close>; the quota
  ledger is an association list on its unique key \<open>(userId, date)\<close>. Store and
  cache operations are taken to succeed; what can fail is a unique index, a cast, a
  validation, and every call to the messaging platform.
\<close>

record descr =
  file_id :: jsstring
  file_name :: jsstring
  ftype :: jsstring
  file_size :: jsstring
  clean_title :: jsstring
  attributes :: "jsstring list"

record filedoc = descr +
  customId :: jsstring
  uploader_id :: jsstring
  downloads :: nat

record pendingdoc = descr +
  adminId :: jsstring
  chatId :: jsstring
  messageId :: int

record state =
  users :: "jsstring list"
  files :: "filedoc list"
  counters :: "jsstring \<rightharpoonup> nat"
  limits :: "((jsstring \<times> jsstring) \<times> nat) list"
  favorites :: "(jsstring \<times> jsstring) list"
  pendings :: "jsstring \<rightharpoonup> pendingdoc"
  member_cache :: "jsstring \<rightharpoonup> (jsstring \<times> nat)"
  search_cache :: "jsstring \<rightharpoonup> (jsstring list \<times> nat)"

section \<open>The messaging platform\<close>

text \<open>
  A handler's observable output is the list of platform calls it attempts, in order. A
  message body is a \<open>notice\<close>: one constructor for each text the bot sends, with
  the values it interpolates. The \<open>world\<close> of one handler run decides what the
  platform answers: the calendar date (read once: a run across midnight is not modelled),
  the result of
  \<^verbatim>\<open>getChatMember\<close>, whether a call is accepted or rejected (and whether the
  rejection carries status 403), the \<^verbatim>\<open>_id\<close> the driver generates for a new
  pending upload, and the id of a message the bot has just sent. The deferred deletion of
  messages (\<^verbatim>\<open>autoDeleteMessage\<close>) and the pause between two sends of a
  broadcast are timers and are not modelled. A handler runs from start to end without
  interleaving with another one.
\<close>

datatype tg_error = Forbidden | OtherFailure

datatype target = Chat int | Recipient jsstring

datatype notice =
    JoinPrompt | ThanksForJoining | StillNotJoined | MustJoinFirst
  | Welcome | HelpText bool | Stats nat nat nat
  | NoFilesYet | RecentUploads "jsstring list" | NoTrending | TopTrending "jsstring list"
  | NoFavoritesYet | FavoritesEmpty | YourFavorites nat "jsstring list"
  | YourAccount nat int int
  | ReviewUpload jsstring jsstring jsstring
  | FileNotFound | DailyLimitReached
  | NoResults jsstring | Found nat "jsstring list" bool
  | Expired | FileAlreadyExists | Published jsstring jsstring | Cancelled
  | FileNotFoundDeleted | DailyLimitExceeded | SendingFile
  | SearchExpired | ResultsPage "jsstring list"
  | RemovedFromFavorites | Max50Favorites | AddedToFavorites
  | ErrorOccurred
  | Deleted jsstring | NotFound
  | BroadcastUsage | Broadcasting nat | BroadcastComplete nat nat
  | Literal jsstring

datatype call =
    SendMessage target notice
  | EditMessageText int int notice
  | AnswerCallbackQuery jsstring notice
  | DeleteMessage int int
  | SendVideo int jsstring jsstring
  | SendDocument int jsstring jsstring
  | CopyMessage jsstring int int
  | ExportChatInviteLink jsstring

record world =
  today :: jsstring
  getChatMember :: "jsstring \<Rightarrow> jsstring \<Rightarrow> tg_error + jsstring"
  tg :: "call \<Rightarrow> tg_error option"
  new_oid :: jsstring
  sent_message_id :: int

datatype attachment = Video jsstring "jsstring option" | Document jsstring "jsstring option"

record msg =
  m_chat :: int
  m_from :: "jsstring option"
  m_message_id :: int
  m_text :: "jsstring option"
  m_caption :: "jsstring option"
  m_attachment :: "attachment option"
  m_size_label :: jsstring
  m_reply_to :: "int option"

record cbq =
  q_id :: jsstring
  q_chat :: int
  q_from :: jsstring
  q_data :: jsstring
  q_message_id :: int

section \<open>Helpers\<close>

text \<open>
  \<^verbatim>\<open>nextSequence\<close> (find-and-increment with upsert, returning the new document),
  \<^verbatim>\<open>getUserLimitCount\<close> (\<^verbatim>\<open>doc?.count || 0\<close>),
  \<^verbatim>\<open>incrementAndGetLimit\<close> and \<^verbatim>\<open>saveUser\<close>.
\<close>

definition nextSequence :: "state \<Rightarrow> jsstring \<Rightarrow> jsstring \<times> state" where
  "nextSequence s name =
     (let seq = (case counters s name of None \<Rightarrow> 1 | Some n \<Rightarrow> n + 1)
      in (format_id seq, s\<lparr>counters := (counters s)(name \<mapsto> seq)\<rparr>))"

definition getUserLimitCount :: "world \<Rightarrow> state \<Rightarrow> jsstring \<Rightarrow> nat" where
  "getUserLimitCount w s userId =
     (case map_of (limits s) (userId, today w) of None \<Rightarrow> 0 | Some c \<Rightarrow> c)"

definition incrementAndGetLimit :: "world \<Rightarrow> state \<Rightarrow> jsstring \<Rightarrow> nat \<times> state" where
  "incrementAndGetLimit w s userId =
     (let c = (case map_of (limits s) (userId, today w) of None \<Rightarrow> 1 | Some c \<Rightarrow> c + 1)
      in (c, s\<lparr>limits := AList.update (userId, today w) c (limits s)\<rparr>))"

definition saveUser :: "state \<Rightarrow> jsstring \<Rightarrow> state" where
  "saveUser s userId =
     (if userId \<in> set (users s) then s else s\<lparr>users := users s @ [userId]\<rparr>)"

text \<open>
  \<^verbatim>\<open>verifyJoin\<close>. The result is the verdict, the store (only the membership cache can
  change) and the calls attempted. \<open>query_membership\<close> is the
  \<^verbatim>\<open>try\<close> block: anything that raises inside it, the membership query or the
  sending of the join prompt, ends in the \<^verbatim>\<open>catch\<close> that returns
  \<^verbatim>\<open>true\<close>; the invite link is fetched with its own \<^verbatim>\<open>catch\<close>.
\<close>

definition member_statuses :: "jsstring list" where
  "member_statuses = [js ''creator'', js ''administrator'', js ''member'']"

definition String_of_bool :: "bool \<Rightarrow> jsstring" where
  "String_of_bool b = (if b then js ''true'' else js ''false'')"

definition query_membership ::
  "world \<Rightarrow> state \<Rightarrow> jsstring \<Rightarrow> int \<Rightarrow> jsstring \<Rightarrow> bool \<times> state \<times> call list" where
  "query_membership w s channel chat userId =
     (case getChatMember w channel userId of
        Inl err \<Rightarrow> (True, s, [])
      | Inr status \<Rightarrow>
          (let isMember = (status \<in> set member_statuses);
               s' = s\<lparr>member_cache := (member_cache s)
                      (userId \<mapsto> (String_of_bool isMember, if isMember then 300 else 60))\<rparr>
           in if isMember then (True, s', [])
              else (let link = (if startsWith (js ''@'') channel then []
                                else [ExportChatInviteLink channel]);
                        prompt = SendMessage (Chat chat) JoinPrompt
                    in (case tg w prompt of
                          None \<Rightarrow> (False, s', link @ [prompt])
                        | Some err \<Rightarrow> (True, s', link @ [prompt])))))"

definition verifyJoin ::
  "config \<Rightarrow> world \<Rightarrow> state \<Rightarrow> int \<Rightarrow> jsstring \<Rightarrow> bool \<times> state \<times> call list" where
  "verifyJoin cfg w s chat userId =
     (case FORCE_CHANNEL_ID cfg of
        None \<Rightarrow> (True, s, [])
      | Some channel \<Rightarrow>
          if channel = [] then (True, s, [])
          else if userId \<in> ADMIN_SET cfg then (True, s, [])
          else (case member_cache s userId of
                  None \<Rightarrow> query_membership w s channel chat userId
                | Some (cached, ttl) \<Rightarrow>
                    if cached \<noteq> [] then (cached = js ''true'', s, [])
                    else query_membership w s channel chat userId))"

text \<open>
  \<^verbatim>\<open>File.findOne({ customId })\<close> returns the first matching document, here its
  position, which stands for its \<^verbatim>\<open>_id\<close> in the update
  \<^verbatim>\<open>{ $inc: { downloads: 1 } }\<close> that follows. A file counts as delivered when
  \<^verbatim>\<open>sendVideo\<close> or \<^verbatim>\<open>sendDocument\<close> was called and accepted.
\<close>

definition find_file :: "jsstring \<Rightarrow> filedoc list \<Rightarrow> nat option" where
  "find_file cid fs =
     (case filter (\<lambda>i. customId (fs ! i) = cid) [0 ..< length fs] of
        [] \<Rightarrow> None
      | i # _ \<Rightarrow> Some i)"

definition inc_downloads :: "nat \<Rightarrow> filedoc list \<Rightarrow> filedoc list" where
  "inc_downloads i fs = fs[i := (fs ! i)\<lparr>downloads := downloads (fs ! i) + 1\<rparr>]"

definition file_send :: "int \<Rightarrow> filedoc \<Rightarrow> call" where
  "file_send chat f =
     (if ftype f = js ''video'' then SendVideo chat (file_id f) (customId f)
      else SendDocument chat (file_id f) (customId f))"

definition is_file_send :: "call \<Rightarrow> bool" where
  "is_file_send c = (case c of SendVideo _ _ _ \<Rightarrow> True | SendDocument _ _ _ \<Rightarrow> True | _ \<Rightarrow> False)"

definition delivered :: "world \<Rightarrow> call list \<Rightarrow> bool" where
  "delivered w cs = (\<exists>c\<in>set cs. is_file_send c \<and> tg w c = None)"

text \<open>
  The keyword query \<^verbatim>\<open>{ attributes: { $all: keywords } }\<close>, and one page of its
  results, newest first.
\<close>

definition matches :: "jsstring list \<Rightarrow> filedoc \<Rightarrow> bool" where
  "matches keywords f = list_all (\<lambda>k. k \<in> set (attributes f)) keywords"

definition result_page :: "config \<Rightarrow> jsstring list \<Rightarrow> filedoc list \<Rightarrow> nat \<Rightarrow> jsstring list" where
  "result_page cfg keywords fs page =
     map customId (take (RESULTS_PER_PAGE_NUM cfg)
       (drop (page * RESULTS_PER_PAGE_NUM cfg) (rev (filter (matches keywords) fs))))"

section \<open>The message handler\<close>

text \<open>
  \<^verbatim>\<open>bot.on('message')\<close>: commands are ignored; a video or document from an
  administrator becomes a pending upload (\<open>upload\<close>); any other text is a search,
  behind \<^verbatim>\<open>saveUser\<close> and the membership check, by catalog id
  (\<open>search_by_id\<close>) or by keywords. This handler has no \<^verbatim>\<open>try\<close>:
  a rejected call ends it where it stands. A message without a sender raises at the first
  line. \<^verbatim>\<open>formatSize\<close> is floating-point formatting: the size label comes with the
  message (\<open>m_size_label\<close>).
\<close>

definition text_of :: "jsstring option \<Rightarrow> jsstring" where
  "text_of t = (case t of None \<Rightarrow> [] | Some v \<Rightarrow> v)"

definition or_else :: "jsstring option \<Rightarrow> jsstring \<Rightarrow> jsstring" where
  "or_else t d = (if text_of t \<noteq> [] then text_of t else d)"

definition att_file_id :: "attachment \<Rightarrow> jsstring" where
  "att_file_id a = (case a of Video i _ \<Rightarrow> i | Document i _ \<Rightarrow> i)"

definition att_file_name :: "attachment \<Rightarrow> jsstring option" where
  "att_file_name a = (case a of Video _ n \<Rightarrow> n | Document _ n \<Rightarrow> n)"

definition att_type :: "attachment \<Rightarrow> jsstring" where
  "att_type a = (case a of Video _ _ \<Rightarrow> js ''video'' | Document _ _ \<Rightarrow> js ''document'')"

definition upload ::
  "config \<Rightarrow> world \<Rightarrow> state \<Rightarrow> msg \<Rightarrow> jsstring \<Rightarrow> attachment \<Rightarrow> state \<times> call list" where
  "upload cfg w s m fromId a =
     (let rawName = or_else (m_caption m) (or_else (att_file_name a) (js ''Unknown''));
          clean = cleanFileName rawName;
          size = m_size_label m;
          attrs = generateAttributes (toLowerCase cfg) clean
      in if new_oid w \<in> dom (pendings s) then (s, [])
         else (s\<lparr>pendings := (pendings s)(new_oid w \<mapsto>
                  \<lparr>file_id = att_file_id a, file_name = rawName, ftype = att_type a,
                   file_size = size, clean_title = clean, attributes = attrs,
                   adminId = fromId, chatId = String_of_int (m_chat m),
                   messageId = m_message_id m\<rparr>)\<rparr>,
               [SendMessage (Chat (m_chat m)) (ReviewUpload clean size (new_oid w))]))"

definition search_by_id ::
  "config \<Rightarrow> world \<Rightarrow> state \<Rightarrow> int \<Rightarrow> jsstring \<Rightarrow> jsstring \<Rightarrow> state \<times> call list" where
  "search_by_id cfg w s chat fromId t =
     (let cid = toUpperCase cfg t
      in case find_file cid (files s) of
           None \<Rightarrow> (s, [SendMessage (Chat chat) FileNotFound])
         | Some i \<Rightarrow>
             (let file = files s ! i;
                  used = getUserLimitCount w s fromId
              in if DAILY_LIMIT_NUM cfg \<le> int used
                 then (s, [SendMessage (Chat chat) DailyLimitReached])
                 else (let s1 = snd (incrementAndGetLimit w s fromId);
                           s2 = s1\<lparr>files := inc_downloads i (files s1)\<rparr>
                       in (s2, [file_send chat file]))))"

definition keyword_search ::
  "config \<Rightarrow> world \<Rightarrow> state \<Rightarrow> int \<Rightarrow> jsstring \<Rightarrow> jsstring \<Rightarrow> state \<times> call list" where
  "keyword_search cfg w s chat fromId t =
     (let keywords = filter (\<lambda>k. k \<noteq> []) (split_on 0x20 (toLowerCase cfg t))
      in if keywords = [] then (s, [])
         else (let total = length (filter (matches keywords) (files s));
                   page = result_page cfg keywords (files s) 0
               in if page = [] then (s, [SendMessage (Chat chat) (NoResults t)])
                  else (s\<lparr>search_cache := (search_cache s)(fromId \<mapsto> (keywords, 300))\<rparr>,
                        [SendMessage (Chat chat)
                           (Found total page (RESULTS_PER_PAGE_NUM cfg < total))])))"

definition on_message :: "config \<Rightarrow> world \<Rightarrow> state \<Rightarrow> msg \<Rightarrow> state \<times> call list" where
  "on_message cfg w s m =
     (case m_from m of
        None \<Rightarrow> (s, [])
      | Some fromId \<Rightarrow>
          (let t = trim (text_of (m_text m))
           in if t \<noteq> [] \<and> startsWith (js ''/'') t then (s, [])
              else (case (if fromId \<in> ADMIN_SET cfg then m_attachment m else None) of
                      Some a \<Rightarrow> upload cfg w s m fromId a
                    | None \<Rightarrow>
                        if t \<noteq> [] then
                          (case verifyJoin cfg w (saveUser s fromId) (m_chat m) fromId of
                             (ok, s1, cs) \<Rightarrow>
                               if \<not> ok then (s1, cs)
                               else (case (if is_custom_id t
                                           then search_by_id cfg w s1 (m_chat m) fromId t
                                           else keyword_search cfg w s1 (m_chat m) fromId t) of
                                       (s2, cs2) \<Rightarrow> (s2, cs @ cs2)))
                        else (s, []))))"

section \<open>The callback handler\<close>

text \<open>
  \<^verbatim>\<open>bot.on('callback_query')\<close>. \<open>callback_actions\<close> is the
  \<^verbatim>\<open>try\<close> block with its five branches; \<open>awaited\<close> is an awaited call
  at the end of a branch, whose rejection is caught and answered with "Error occurred".
  In \<open>on_confirm\<close> the insert fails on a violated unique index
  (\<^verbatim>\<open>customId\<close>, \<^verbatim>\<open>file_id\<close>) or on an empty required
  \<^verbatim>\<open>file_id\<close>, after the sequence has advanced. In \<open>on_page\<close> only plain
  decimal page numbers are read (\<^verbatim>\<open>Number\<close> also reads the empty string,
  signs, exponents and hexadecimal); that branch writes nothing. A pending upload is
  looked up under the canonical spelling of its \<^verbatim>\<open>_id\<close>.
\<close>

definition awaited :: "world \<Rightarrow> cbq \<Rightarrow> call \<Rightarrow> call list" where
  "awaited w q c =
     c # (case tg w c of None \<Rightarrow> [] | Some err \<Rightarrow> [AnswerCallbackQuery (q_id q) ErrorOccurred])"

definition on_confirm :: "config \<Rightarrow> world \<Rightarrow> state \<Rightarrow> cbq \<Rightarrow> state \<times> call list" where
  "on_confirm cfg w s q =
     (let pendingId = arg1 (q_data q)
      in if \<not> castable cfg pendingId then (s, [AnswerCallbackQuery (q_id q) ErrorOccurred])
         else (case pendings s pendingId of
                 None \<Rightarrow> (s, [AnswerCallbackQuery (q_id q) Expired])
               | Some p \<Rightarrow>
                   if \<exists>f\<in>set (files s). file_id f = file_id p
                   then (s\<lparr>pendings := (pendings s)(pendingId := None)\<rparr>,
                         [EditMessageText (q_chat q) (q_message_id q) FileAlreadyExists])
                   else (case nextSequence s (js ''file'') of
                           (cid, s1) \<Rightarrow>
                             if file_id p = []
                                \<or> (\<exists>f\<in>set (files s1). customId f = cid \<or> file_id f = file_id p)
                             then (s1, [AnswerCallbackQuery (q_id q) ErrorOccurred])
                             else (s1\<lparr>files := files s1 @
                                        [\<lparr>file_id = file_id p, file_name = file_name p,
                                          ftype = ftype p, file_size = file_size p,
                                          clean_title = clean_title p,
                                          attributes = attributes p, customId = cid,
                                          uploader_id = adminId p, downloads = 0\<rparr>],
                                      pendings := (pendings s1)(pendingId := None)\<rparr>,
                                   awaited w q (EditMessageText (q_chat q) (q_message_id q)
                                      (Published cid (clean_title p)))))))"

definition on_cancel :: "config \<Rightarrow> world \<Rightarrow> state \<Rightarrow> cbq \<Rightarrow> state \<times> call list" where
  "on_cancel cfg w s q =
     (let pendingId = arg1 (q_data q)
      in if \<not> castable cfg pendingId then (s, [AnswerCallbackQuery (q_id q) ErrorOccurred])
         else (s\<lparr>pendings := (pendings s)(pendingId := None)\<rparr>,
               awaited w q (EditMessageText (q_chat q) (q_message_id q) Cancelled)))"

definition on_get :: "config \<Rightarrow> world \<Rightarrow> state \<Rightarrow> cbq \<Rightarrow> state \<times> call list" where
  "on_get cfg w s q =
     (let cid = arg1 (q_data q)
      in case find_file cid (files s) of
           None \<Rightarrow> (s, [AnswerCallbackQuery (q_id q) FileNotFoundDeleted])
         | Some i \<Rightarrow>
             (let file = files s ! i;
                  used = getUserLimitCount w s (q_from q);
                  ack = AnswerCallbackQuery (q_id q) SendingFile
              in if DAILY_LIMIT_NUM cfg \<le> int used
                 then (s, [AnswerCallbackQuery (q_id q) DailyLimitExceeded])
                 else (case tg w ack of
                         Some err \<Rightarrow> (s, [ack, AnswerCallbackQuery (q_id q) ErrorOccurred])
                       | None \<Rightarrow>
                           (let s1 = snd (incrementAndGetLimit w s (q_from q));
                                s2 = s1\<lparr>files := inc_downloads i (files s1)\<rparr>
                            in (s2, ack # awaited w q (file_send (q_chat q) file))))))"

definition parse_page :: "jsstring \<Rightarrow> nat option" where
  "parse_page t =
     (if t \<noteq> [] \<and> list_all is_digit t
      then Some (foldl (\<lambda>a c. 10 * a + unat (c - 0x30)) 0 t) else None)"

definition on_page :: "config \<Rightarrow> world \<Rightarrow> state \<Rightarrow> cbq \<Rightarrow> state \<times> call list" where
  "on_page cfg w s q =
     (case search_cache s (q_from q) of
        None \<Rightarrow> (s, [AnswerCallbackQuery (q_id q) SearchExpired])
      | Some (keywords, ttl) \<Rightarrow>
          (case parse_page (arg1 (q_data q)) of
             None \<Rightarrow> (s, [AnswerCallbackQuery (q_id q) ErrorOccurred])
           | Some page \<Rightarrow>
               (s, awaited w q (EditMessageText (q_chat q) (q_message_id q)
                     (ResultsPage (result_page cfg keywords (files s) page))))))"

definition fav_count :: "(jsstring \<times> jsstring) list \<Rightarrow> jsstring \<Rightarrow> nat" where
  "fav_count favs userId = length (filter (\<lambda>d. fst d = userId) favs)"

definition on_fav :: "world \<Rightarrow> state \<Rightarrow> cbq \<Rightarrow> state \<times> call list" where
  "on_fav w s q =
     (let cid = arg1 (q_data q); doc = (q_from q, cid)
      in if doc \<in> set (favorites s)
         then (s\<lparr>favorites := remove1 doc (favorites s)\<rparr>,
               awaited w q (AnswerCallbackQuery (q_id q) RemovedFromFavorites))
         else if 50 \<le> fav_count (favorites s) (q_from q)
              then (s, [AnswerCallbackQuery (q_id q) Max50Favorites])
              else (s\<lparr>favorites := favorites s @ [doc]\<rparr>,
                    awaited w q (AnswerCallbackQuery (q_id q) AddedToFavorites)))"

definition callback_actions :: "config \<Rightarrow> world \<Rightarrow> state \<Rightarrow> cbq \<Rightarrow> state \<times> call list" where
  "callback_actions cfg w s q =
     (if startsWith (js ''CONFIRM:'') (q_data q) then on_confirm cfg w s q
      else if startsWith (js ''CANCEL:'') (q_data q) then on_cancel cfg w s q
      else if startsWith (js ''GET:'') (q_data q) then on_get cfg w s q
      else if startsWith (js ''PAGE:'') (q_data q) then on_page cfg w s q
      else if startsWith (js ''FAV:'') (q_data q) then on_fav w s q
      else (s, []))"

definition callback_query :: "config \<Rightarrow> world \<Rightarrow> state \<Rightarrow> cbq \<Rightarrow> state \<times> call list" where
  "callback_query cfg w s q =
     (if q_data q = js ''CHECK_JOIN''
      then (case verifyJoin cfg w (s\<lparr>member_cache := (member_cache s)(q_from q := None)\<rparr>)
                   (q_chat q) (q_from q) of
              (ok, s1, cs) \<Rightarrow>
                if ok then (s1, cs @ [SendMessage (Chat (q_chat q)) ThanksForJoining,
                                      DeleteMessage (q_chat q) (q_message_id q)])
                else (s1, cs @ [AnswerCallbackQuery (q_id q) StillNotJoined]))
      else (case verifyJoin cfg w s (q_chat q) (q_from q) of
              (ok, s1, cs) \<Rightarrow>
                if \<not> ok then (s1, cs @ [AnswerCallbackQuery (q_id q) MustJoinFirst])
                else (case callback_actions cfg w s1 q of
                        (s2, cs2) \<Rightarrow> (s2, cs @ cs2))))"

section \<open>Commands\<close>

text \<open>
  \<^verbatim>\<open>/delete\<close>, \<^verbatim>\<open>/broadcast\<close>, \<^verbatim>\<open>/favorites\<close> and the
  remaining commands. \<open>broadcast_loop\<close> is the \<^verbatim>\<open>for\<close> loop with its
  two counters; the trending list is sorted by a stable sort, where the database leaves
  the order of ties open.
\<close>

definition delete_file :: "jsstring \<Rightarrow> filedoc list \<Rightarrow> filedoc list" where
  "delete_file cid fs =
     (case find_file cid fs of None \<Rightarrow> fs | Some i \<Rightarrow> take i fs @ drop (Suc i) fs)"

definition on_delete :: "config \<Rightarrow> world \<Rightarrow> state \<Rightarrow> msg \<Rightarrow> jsstring \<Rightarrow> state \<times> call list" where
  "on_delete cfg w s m match1 =
     (case m_from m of
        None \<Rightarrow> (s, [])
      | Some fromId \<Rightarrow>
          if fromId \<notin> ADMIN_SET cfg then (s, [])
          else (let cid = toUpperCase cfg (trim match1)
                in (s\<lparr>files := delete_file cid (files s)\<rparr>,
                    [SendMessage (Chat (m_chat m))
                       (if find_file cid (files s) = None then NotFound else Deleted cid)])))"

definition broadcast_call :: "int \<Rightarrow> jsstring option \<Rightarrow> int option \<Rightarrow> jsstring \<Rightarrow> call" where
  "broadcast_call chat t reply userId =
     (case reply of
        Some mid \<Rightarrow> CopyMessage userId chat mid
      | None \<Rightarrow> SendMessage (Recipient userId) (Literal (text_of t)))"

fun broadcast_loop ::
  "world \<Rightarrow> int \<Rightarrow> jsstring option \<Rightarrow> int option \<Rightarrow> jsstring list \<Rightarrow> nat \<Rightarrow> nat \<Rightarrow> call list
     \<Rightarrow> nat \<times> nat \<times> call list" where
  "broadcast_loop w chat t reply [] success blocked cs = (success, blocked, cs)"
| "broadcast_loop w chat t reply (u # us) success blocked cs =
     (case tg w (broadcast_call chat t reply u) of
        None \<Rightarrow>
          broadcast_loop w chat t reply us (success + 1) blocked
            (cs @ [broadcast_call chat t reply u])
      | Some err \<Rightarrow>
          broadcast_loop w chat t reply us success
            (if err = Forbidden then blocked + 1 else blocked)
            (cs @ [broadcast_call chat t reply u]))"

definition on_broadcast ::
  "config \<Rightarrow> world \<Rightarrow> state \<Rightarrow> msg \<Rightarrow> jsstring option \<Rightarrow> state \<times> call list" where
  "on_broadcast cfg w s m match1 =
     (case m_from m of
        None \<Rightarrow> (s, [])
      | Some fromId \<Rightarrow>
          if fromId \<notin> ADMIN_SET cfg then (s, [])
          else if text_of match1 = [] \<and> m_reply_to m = None
               then (s, [SendMessage (Chat (m_chat m)) BroadcastUsage])
               else (let status = SendMessage (Chat (m_chat m)) (Broadcasting (length (users s)))
                     in case tg w status of
                          Some err \<Rightarrow> (s, [status])
                        | None \<Rightarrow>
                            (case broadcast_loop w (m_chat m) match1 (m_reply_to m) (users s) 0 0 [] of
                               (success, blocked, cs) \<Rightarrow>
                                 (s, status # cs @
                                     [EditMessageText (m_chat m) (sent_message_id w)
                                        (BroadcastComplete success blocked)]))))"

definition on_favorites :: "config \<Rightarrow> world \<Rightarrow> state \<Rightarrow> msg \<Rightarrow> state \<times> call list" where
  "on_favorites cfg w s m =
     (case m_from m of
        None \<Rightarrow> (s, [])
      | Some userId \<Rightarrow>
          (case verifyJoin cfg w (saveUser s userId) (m_chat m) userId of
             (ok, s1, cs) \<Rightarrow>
               if \<not> ok then (s1, cs)
               else (let favs = filter (\<lambda>d. fst d = userId) (favorites s1);
                         fileIds = map snd favs;
                         found = filter (\<lambda>f. customId f \<in> set fileIds) (files s1)
                     in if favs = [] then (s1, cs @ [SendMessage (Chat (m_chat m)) NoFavoritesYet])
                        else if found = []
                             then (s1, cs @ [SendMessage (Chat (m_chat m)) FavoritesEmpty])
                             else (s1, cs @ [SendMessage (Chat (m_chat m))
                                     (YourFavorites (length found)
                                        (map customId (take 10 found)))]))))"

definition gated_command ::
  "config \<Rightarrow> world \<Rightarrow> state \<Rightarrow> msg \<Rightarrow> (state \<Rightarrow> notice) \<Rightarrow> state \<times> call list" where
  "gated_command cfg w s m reply =
     (case m_from m of
        None \<Rightarrow> (s, [])
      | Some userId \<Rightarrow>
          (case verifyJoin cfg w (saveUser s userId) (m_chat m) userId of
             (ok, s1, cs) \<Rightarrow>
               if \<not> ok then (s1, cs)
               else (s1, cs @ [SendMessage (Chat (m_chat m)) (reply s1)])))"

definition on_start :: "config \<Rightarrow> world \<Rightarrow> state \<Rightarrow> msg \<Rightarrow> state \<times> call list" where
  "on_start cfg w s m = gated_command cfg w s m (\<lambda>s1. Welcome)"

definition on_recent :: "config \<Rightarrow> world \<Rightarrow> state \<Rightarrow> msg \<Rightarrow> state \<times> call list" where
  "on_recent cfg w s m =
     gated_command cfg w s m
       (\<lambda>s1. if files s1 = [] then NoFilesYet
             else RecentUploads (map customId (take 10 (rev (files s1)))))"

definition on_trending :: "config \<Rightarrow> world \<Rightarrow> state \<Rightarrow> msg \<Rightarrow> state \<times> call list" where
  "on_trending cfg w s m =
     gated_command cfg w s m
       (\<lambda>s1. if files s1 = [] then NoTrending
             else TopTrending (map customId (take 10 (rev (sort_key downloads (files s1))))))"

definition on_myaccount :: "config \<Rightarrow> world \<Rightarrow> state \<Rightarrow> msg \<Rightarrow> state \<times> call list" where
  "on_myaccount cfg w s m =
     (case m_from m of
        None \<Rightarrow> (s, [])
      | Some userId \<Rightarrow>
          (let s1 = saveUser s userId;
               used = getUserLimitCount w s1 userId
           in (s1, [SendMessage (Chat (m_chat m))
                      (YourAccount used (max (DAILY_LIMIT_NUM cfg - int used) 0)
                         (DAILY_LIMIT_NUM cfg))])))"

definition on_help :: "config \<Rightarrow> world \<Rightarrow> state \<Rightarrow> msg \<Rightarrow> state \<times> call list" where
  "on_help cfg w s m =
     (case m_from m of
        None \<Rightarrow> (s, [])
      | Some userId \<Rightarrow> (s, [SendMessage (Chat (m_chat m)) (HelpText (userId \<in> ADMIN_SET cfg))]))"

definition on_stats :: "config \<Rightarrow> world \<Rightarrow> state \<Rightarrow> msg \<Rightarrow> state \<times> call list" where
  "on_stats cfg w s m =
     (case m_from m of
        None \<Rightarrow> (s, [])
      | Some userId \<Rightarrow>
          if userId \<notin> ADMIN_SET cfg then (s, [])
          else (s, [SendMessage (Chat (m_chat m))
                      (Stats (length (files s)) (length (users s))
                         (length (filter (\<lambda>d. snd (fst d) = today w) (limits s))))]))"

section \<open>Events and runs\<close>

text \<open>
  An event is one handler invocation, or the expiry of a pending upload (the TTL index) or
  of a cache key. A run is a list of events, each with the world it meets.
  \<open>published_ids\<close> are the ids of the successful publishes of a run: the
  "Published" edit is attempted exactly after a successful insert.
\<close>

datatype cache_key = MemberKey jsstring | SearchKey jsstring

datatype event =
    Message msg
  | CallbackQuery cbq
  | CmdStart msg
  | CmdHelp msg
  | CmdStats msg
  | CmdBroadcast msg "jsstring option"
  | CmdRecent msg
  | CmdTrending msg
  | CmdFavorites msg
  | CmdMyaccount msg
  | CmdDelete msg jsstring
  | PendingExpired jsstring
  | CacheExpired cache_key

fun step :: "config \<Rightarrow> world \<Rightarrow> state \<Rightarrow> event \<Rightarrow> state \<times> call list" where
  "step cfg w s (Message m) = on_message cfg w s m"
| "step cfg w s (CallbackQuery q) = callback_query cfg w s q"
| "step cfg w s (CmdStart m) = on_start cfg w s m"
| "step cfg w s (CmdHelp m) = on_help cfg w s m"
| "step cfg w s (CmdStats m) = on_stats cfg w s m"
| "step cfg w s (CmdBroadcast m match1) = on_broadcast cfg w s m match1"
| "step cfg w s (CmdRecent m) = on_recent cfg w s m"
| "step cfg w s (CmdTrending m) = on_trending cfg w s m"
| "step cfg w s (CmdFavorites m) = on_favorites cfg w s m"
| "step cfg w s (CmdMyaccount m) = on_myaccount cfg w s m"
| "step cfg w s (CmdDelete m match1) = on_delete cfg w s m match1"
| "step cfg w s (PendingExpired pid) = (s\<lparr>pendings := (pendings s)(pid := None)\<rparr>, [])"
| "step cfg w s (CacheExpired (MemberKey u)) = (s\<lparr>member_cache := (member_cache s)(u := None)\<rparr>, [])"
| "step cfg w s (CacheExpired (SearchKey u)) = (s\<lparr>search_cache := (search_cache s)(u := None)\<rparr>, [])"

fun run :: "config \<Rightarrow> state \<Rightarrow> (world \<times> event) list \<Rightarrow> state \<times> call list" where
  "run cfg s [] = (s, [])"
| "run cfg s ((w, ev) # tr) =
     (case step cfg w s ev of
        (s1, cs) \<Rightarrow> (case run cfg s1 tr of (s2, cs2) \<Rightarrow> (s2, cs @ cs2)))"

fun published_id :: "call \<Rightarrow> jsstring option" where
  "published_id (EditMessageText chat mid (Published cid title)) = Some cid"
| "published_id c = None"

definition published_ids :: "call list \<Rightarrow> jsstring list" where
  "published_ids cs = List.map_filter published_id cs"

section \<open>Properties of states\<close>

text \<open>
  The value of the catalog's sequence counter, the invariant of the favorites ledger (its
  unique index, and at most 50 entries for every user who has any), and the ways one event
  can change the catalog: not at all, one \<open>downloads\<close> counter incremented, one
  record removed, or one record with a new \<open>file_id\<close> and \<open>customId\<close>
  and zero downloads appended.
\<close>

definition seq_of :: "state \<Rightarrow> nat" where
  "seq_of s = (case counters s (js ''file'') of None \<Rightarrow> 0 | Some n \<Rightarrow> n)"

definition fav_inv :: "state \<Rightarrow> bool" where
  "fav_inv s = (distinct (favorites s)
     \<and> list_all (\<lambda>d. fav_count (favorites s) (fst d) \<le> 50) (favorites s))"

definition files_step :: "filedoc list \<Rightarrow> filedoc list \<Rightarrow> bool" where
  "files_step fs fs' =
     (fs' = fs
      \<or> (\<exists>i\<in>{..<length fs}. fs' = inc_downloads i fs)
      \<or> (\<exists>i\<in>{..<length fs}. fs' = take i fs @ drop (Suc i) fs)
      \<or> (fs' \<noteq> [] \<and> butlast fs' = fs \<and> downloads (last fs') = 0
          \<and> file_id (last fs') \<notin> file_id ` set fs
          \<and> customId (last fs') \<notin> customId ` set fs))"

abbreviation digits_value :: "jsstring \<Rightarrow> nat" where
  "digits_value \<equiv> foldl (\<lambda>a c. 10 * a + unat (c - 0x30)) 0"


text \<open>
  The files whose sending a list of calls attempts, each as its \<open>file_id\<close> and
  \<open>customId\<close>; and how one event may account for downloads: either the quota
  ledger is unchanged and no \<open>downloads\<close> counter moves (the catalog is as it
  was, or one record was removed, or one record with zero downloads was appended), or
  exactly one record's counter was incremented by one and the sending of that very file
  is among the calls of the event.
\<close>

definition file_sent :: "call \<Rightarrow> (jsstring \<times> jsstring) option" where
  "file_sent c = (case c of SendVideo _ fid cid \<Rightarrow> Some (fid, cid)
                          | SendDocument _ fid cid \<Rightarrow> Some (fid, cid)
                          | _ \<Rightarrow> None)"

definition files_sent :: "call list \<Rightarrow> (jsstring \<times> jsstring) list" where
  "files_sent cs = List.map_filter file_sent cs"

definition quiet_files :: "filedoc list \<Rightarrow> filedoc list \<Rightarrow> bool" where
  "quiet_files fs fs' =
     (fs' = fs
      \<or> (\<exists>i\<in>{..<length fs}. fs' = take i fs @ drop (Suc i) fs)
      \<or> (fs' \<noteq> [] \<and> butlast fs' = fs \<and> downloads (last fs') = 0))"

definition accounted :: "state \<Rightarrow> state \<Rightarrow> call list \<Rightarrow> bool" where
  "accounted s s' cs =
     ((limits s' = limits s \<and> quiet_files (files s) (files s'))
      \<or> (\<exists>i\<in>{..<length (files s)}.
            files s' = inc_downloads i (files s)
            \<and> (file_id (files s ! i), customId (files s ! i)) \<in> set (files_sent cs)))"

section \<open>Concrete configurations, worlds and states\<close>

text \<open>
  Administrator 1, with and without a required channel; worlds in which every call
  succeeds, file sends fail, every call is rejected with 403, direct messages to users
  fail otherwise, or the membership query raises; and a few stores.
\<close>

definition upper_ascii :: "jschar \<Rightarrow> jschar" where
  "upper_ascii c = (if 0x61 \<le> c \<and> c \<le> 0x7A then c - 0x20 else c)"

definition is_hex :: "jschar \<Rightarrow> bool" where
  "is_hex c = (is_digit c \<or> (0x61 \<le> c \<and> c \<le> 0x66) \<or> (0x41 \<le> c \<and> c \<le> 0x46))"

definition cfg_open :: config where
  "cfg_open = \<lparr>ADMIN_SET = {js ''1''}, FORCE_CHANNEL_ID = None, DAILY_LIMIT_NUM = 100,
     RESULTS_PER_PAGE_NUM = 10, toLowerCase = map lower_ascii, toUpperCase = map upper_ascii,
     castable = (\<lambda>i. length i = 24 \<and> list_all is_hex i)\<rparr>"

definition cfg_gated :: config where
  "cfg_gated = cfg_open\<lparr>FORCE_CHANNEL_ID := Some (js ''@movies'')\<rparr>"

definition w_ok :: world where
  "w_ok = \<lparr>today = js ''2024-01-01'', getChatMember = (\<lambda>channel u. Inr (js ''left'')),
     tg = (\<lambda>c. None), new_oid = js ''64b7f0c2a1d3e4f5a6b7c8d9'', sent_message_id = 77\<rparr>"

definition w_nosend :: world where
  "w_nosend = w_ok\<lparr>tg := (\<lambda>c. if is_file_send c then Some OtherFailure else None)\<rparr>"

definition w_noprompt :: world where
  "w_noprompt = w_ok\<lparr>tg := (\<lambda>c. Some Forbidden)\<rparr>"

definition w_unreachable :: world where
  "w_unreachable = w_ok\<lparr>tg := (\<lambda>c. case c of SendMessage (Recipient u) n \<Rightarrow> Some OtherFailure
                                        | _ \<Rightarrow> None)\<rparr>"

definition s_empty :: state where
  "s_empty = \<lparr>users = [], files = [], counters = Map.empty, limits = [], favorites = [],
     pendings = Map.empty, member_cache = Map.empty, search_cache = Map.empty\<rparr>"

definition iron_man :: filedoc where
  "iron_man = \<lparr>file_id = js ''AgAD1'', file_name = js ''Iron.Man.2008.1080p.mkv'',
     ftype = js ''video'', file_size = js ''1.5 GB'', clean_title = js ''Iron Man 2008 1080p'',
     attributes = [js ''iron'', js ''man'', js ''2008'', js ''1080p''],
     customId = js ''F0001'', uploader_id = js ''1'', downloads = 0\<rparr>"

definition iron_man_pending :: pendingdoc where
  "iron_man_pending = \<lparr>file_id = js ''AgAD1'', file_name = js ''Iron.Man.2008.1080p.mkv'',
     ftype = js ''video'', file_size = js ''1.5 GB'', clean_title = js ''Iron Man 2008 1080p'',
     attributes = [js ''iron'', js ''man'', js ''2008'', js ''1080p''],
     adminId = js ''1'', chatId = js ''1'', messageId = 10\<rparr>"

definition s_catalog :: state where
  "s_catalog = s_empty\<lparr>files := [iron_man], counters := [js ''file'' \<mapsto> 1]\<rparr>"

definition s_pending :: state where
  "s_pending = s_empty\<lparr>pendings := [js ''64b7f0c2a1d3e4f5a6b7c8d9'' \<mapsto> iron_man_pending]\<rparr>"

definition s_resubmitted :: state where
  "s_resubmitted = s_catalog\<lparr>pendings := [js ''64b7f0c2a1d3e4f5a6b7c8d9'' \<mapsto> iron_man_pending]\<rparr>"

definition s_two_users :: state where
  "s_two_users = s_empty\<lparr>users := [js ''7'', js ''8'']\<rparr>"

definition press :: "jsstring \<Rightarrow> jsstring \<Rightarrow> cbq" where
  "press u d = \<lparr>q_id = js ''q1'', q_chat = 5, q_from = u, q_data = d, q_message_id = 11\<rparr>"

definition typed :: "jsstring \<Rightarrow> jsstring \<Rightarrow> msg" where
  "typed u t = \<lparr>m_chat = 5, m_from = Some u, m_message_id = 12, m_text = Some t,
     m_caption = None, m_attachment = None, m_size_label = [], m_reply_to = None\<rparr>"

definition s_spent :: state where
  "s_spent = s_catalog\<lparr>limits := [((js ''7'', js ''2024-01-01''), 100)]\<rparr>"

definition s_full :: state where
  "s_full = s_empty\<lparr>favorites := map (\<lambda>n. (js ''7'', format_id n)) [1 ..< 51]\<rparr>"

definition s_dangling :: state where
  "s_dangling = s_catalog\<lparr>favorites := [(js ''7'', js ''F0001''), (js ''7'', js ''F0002'')]\<rparr>"

definition sent_file :: "jsstring \<Rightarrow> jsstring \<Rightarrow> msg" where
  "sent_file u i = \<lparr>m_chat = 5, m_from = Some u, m_message_id = 13, m_text = None,
     m_caption = None, m_attachment = Some (Video i (Some (js ''Thor.2011.mkv''))),
     m_size_label = js ''1.2 GB'', m_reply_to = None\<rparr>"

definition w_blind :: world where
  "w_blind = w_ok\<lparr>getChatMember := (\<lambda>channel u. Inl OtherFailure)\<rparr>"

definition w_member :: world where
  "w_member = w_ok\<lparr>getChatMember := (\<lambda>channel u. Inr (js ''member''))\<rparr>"

definition s_cached :: state where
  "s_cached = s_empty\<lparr>member_cache := [js ''7'' \<mapsto> (js ''false'', 60)]\<rparr>"

definition w_noack :: world where
  "w_noack = w_ok\<lparr>tg := (\<lambda>c. case c of AnswerCallbackQuery i n \<Rightarrow> Some OtherFailure
                                  | _ \<Rightarrow> None)\<rparr>"

section \<open>Lemmas and theorems\<close>

subsection \<open>The normalizer\<close>

lemma space_not_word: "is_space c \<Longrightarrow> \<not> is_word c"
  unfolding is_space_def is_word_def word_le_nat_alt word_unat_eq_iff
  by simp linarith

lemma sp_facts: "is_space 0x20" "\<not> is_word 0x20" "\<not> is_punct 0x20" "\<not> is_punct 0x40" "\<not> is_space 0x40"
  by (simp_all add: is_space_def is_word_def is_punct_def)

lemma lower_ascii_dot: "lower_ascii c = 0x2E \<Longrightarrow> c = 0x2E"
  by (auto simp: lower_ascii_def split: if_splits) 

lemma ext_at_end_dot: "ext_at_end e s \<Longrightarrow> 0x2E \<in> set s"
proof -
  assume a: "ext_at_end e s"
  let ?d = "drop (length s - Suc (length e)) s"
  from a have m: "map lower_ascii ?d = 0x2E # e" by (simp add: ext_at_end_def)
  then obtain c cs where d: "?d = c # cs" by (cases ?d) auto
  with m have "lower_ascii c = 0x2E" by simp
  then have "c = 0x2E" by (rule lower_ascii_dot)
  with d have "0x2E \<in> set ?d" by simp
  then show ?thesis by (rule in_set_dropD)
qed

lemma strip_ext_id: "0x2E \<notin> set s \<Longrightarrow> strip_ext s = s"
  by (auto simp: strip_ext_def split: option.splits dest: find_Some_iff[THEN iffD1] ext_at_end_dot)

lemma hd_dropWhile_not: "dropWhile P xs \<noteq> [] \<Longrightarrow> \<not> P (hd (dropWhile P xs))"
  by (simp add: hd_dropWhile)

lemma strip_mentions_hd_word:
  "strip_mentions xs \<noteq> [] \<Longrightarrow> is_word (hd (strip_mentions xs)) \<Longrightarrow> xs \<noteq> [] \<and> is_word (hd xs)"
proof (induction xs rule: strip_mentions.induct)
  case 1
  then show ?case by simp
next
  case (2 c cs)
  show ?case
  proof (cases "c = 0x40 \<and> cs \<noteq> [] \<and> is_word (hd cs)")
    case True
    with 2 have "dropWhile is_word cs \<noteq> [] \<and> is_word (hd (dropWhile is_word cs))" by simp
    then show ?thesis using hd_dropWhile_not by blast
  next
    case False
    with 2 show ?thesis by auto
  qed
qed

lemma strip_mentions_no_mention: "no_mention (strip_mentions xs)"
proof (induction xs rule: strip_mentions.induct)
  case 1
  then show ?case by simp
next
  case (2 c cs)
  show ?case
  proof (cases "c = 0x40 \<and> cs \<noteq> [] \<and> is_word (hd cs)")
    case True
    with 2 show ?thesis by simp
  next
    case False
    with 2 have ih: "no_mention (strip_mentions cs)" by simp
    from False have eq: "strip_mentions (c # cs) = c # strip_mentions cs" by auto
    show ?thesis unfolding eq successively_Cons
      using ih False strip_mentions_hd_word[of cs] by auto
  qed
qed

lemma strip_mentions_id: "no_mention xs \<Longrightarrow> strip_mentions xs = xs"
  by (induction xs rule: strip_mentions.induct) (auto simp: successively_Cons)

lemma blank_punct_no_mention: "no_mention xs \<Longrightarrow> no_mention (blank_punct xs)"
  unfolding blank_punct_def successively_map
  by (erule successively_mono) (auto simp: sp_facts)

lemma blank_punct_no_punct: "c \<in> set (blank_punct xs) \<Longrightarrow> \<not> is_punct c"
  by (auto simp: blank_punct_def sp_facts)

lemma blank_punct_id: "\<forall>c\<in>set xs. \<not> is_punct c \<Longrightarrow> blank_punct xs = xs"
  by (simp add: blank_punct_def map_idI)

lemma collapse_spaces_hd:
  "xs \<noteq> [] \<Longrightarrow> collapse_spaces xs \<noteq> [] \<and>
     hd (collapse_spaces xs) = (if is_space (hd xs) then 0x20 else hd xs)"
  by (cases xs) auto

lemma collapse_spaces_Nil: "collapse_spaces xs = [] \<longleftrightarrow> xs = []"
  by (cases xs) auto

lemma collapse_spaces_set:
  "c \<in> set (collapse_spaces xs) \<Longrightarrow> c = 0x20 \<or> (c \<in> set xs \<and> \<not> is_space c)"
proof (induction xs rule: collapse_spaces.induct)
  case 1
  then show ?case by simp
next
  case (2 d ds)
  then show ?case by (auto split: if_splits dest: set_dropWhileD)
qed

lemma collapse_spaces_single: "single_spaced (collapse_spaces xs)"
proof (induction xs rule: collapse_spaces.induct)
  case 1
  then show ?case by simp
next
  case (2 c cs)
  show ?case
  proof (cases "is_space c")
    case True
    let ?r = "dropWhile is_space cs"
    from True 2 have ih: "single_spaced (collapse_spaces ?r)" by simp
    have "?r \<noteq> [] \<Longrightarrow> \<not> is_space (hd (collapse_spaces ?r))"
      using collapse_spaces_hd[of ?r] hd_dropWhile_not[of is_space cs] by auto
    with ih True show ?thesis
      by (auto simp: successively_Cons collapse_spaces_Nil)
  next
    case False
    with 2 show ?thesis by (auto simp: successively_Cons)
  qed
qed

lemma collapse_spaces_no_mention: "no_mention xs \<Longrightarrow> no_mention (collapse_spaces xs)"
proof (induction xs rule: collapse_spaces.induct)
  case 1
  then show ?case by simp
next
  case (2 c cs)
  show ?case
  proof (cases "is_space c")
    case True
    let ?r = "dropWhile is_space cs"
    have "successively (\<lambda>c d. \<not> (c = 0x40 \<and> is_word d)) (takeWhile is_space cs @ ?r)"
      using 2(3) by (cases cs) simp_all
    then have "no_mention ?r" unfolding successively_append_iff by simp
    with 2 True have "no_mention (collapse_spaces ?r)" by simp
    with True show ?thesis by (auto simp: successively_Cons sp_facts)
  next
    case False
    from 2(3) have tl: "no_mention cs" by (cases cs) simp_all
    with 2 False have ih: "no_mention (collapse_spaces cs)" by simp
    have "cs \<noteq> [] \<Longrightarrow> c = 0x40 \<Longrightarrow> \<not> is_word (hd (collapse_spaces cs))"
      using collapse_spaces_hd[of cs] 2(3) by (auto simp: successively_Cons sp_facts)
    with ih False show ?thesis by (auto simp: successively_Cons collapse_spaces_Nil)
  qed
qed

lemma collapse_spaces_id:
  "single_spaced xs \<Longrightarrow> \<forall>c\<in>set xs. is_space c \<longrightarrow> c = 0x20 \<Longrightarrow> collapse_spaces xs = xs"
proof (induction xs rule: collapse_spaces.induct)
  case 1
  then show ?case by simp
next
  case (2 c cs)
  show ?case
  proof (cases "is_space c")
    case True
    with 2(3) have nh: "cs \<noteq> [] \<Longrightarrow> \<not> is_space (hd cs)" by (auto simp: successively_Cons)
    then have dw: "dropWhile is_space cs = cs" by (cases cs) auto
    from 2(3) have "single_spaced cs" by (auto simp: successively_Cons)
    with 2 True dw show ?thesis by simp
  next
    case False
    from 2(3) have "single_spaced cs" by (auto simp: successively_Cons)
    with 2 False show ?thesis by simp
  qed
qed

lemma successively_dropWhile: "successively P xs \<Longrightarrow> successively P (dropWhile Q xs)"
proof -
  assume "successively P xs"
  then have "successively P (takeWhile Q xs @ dropWhile Q xs)" by simp
  then show ?thesis unfolding successively_append_iff by simp
qed

lemma successively_trim: "successively P xs \<Longrightarrow> successively P (trim xs)"
  unfolding trim_def
  by (simp add: successively_dropWhile)

lemma set_trim: "c \<in> set (trim xs) \<Longrightarrow> c \<in> set xs"
  unfolding trim_def by (auto dest!: set_dropWhileD)

lemma dropWhile_hd_id: "(xs \<noteq> [] \<Longrightarrow> \<not> P (hd xs)) \<Longrightarrow> dropWhile P xs = xs"
  by (cases xs) auto

lemma trim_id:
  assumes "xs \<noteq> [] \<Longrightarrow> \<not> is_space (hd xs) \<and> \<not> is_space (last xs)"
  shows "trim xs = xs"
proof -
  have a: "dropWhile is_space xs = xs" using assms by (intro dropWhile_hd_id) simp
  have "rev xs \<noteq> [] \<Longrightarrow> \<not> is_space (hd (rev xs))" using assms by (simp add: hd_rev)
  then have b: "dropWhile is_space (rev xs) = rev xs" by (rule dropWhile_hd_id)
  show ?thesis by (simp add: trim_def a b)
qed

lemma trim_ends: "trim xs \<noteq> [] \<Longrightarrow> \<not> is_space (hd (trim xs)) \<and> \<not> is_space (last (trim xs))"
proof -
  assume ne: "trim xs \<noteq> []"
  let ?a = "dropWhile is_space xs"
  let ?b = "dropWhile is_space (rev ?a)"
  have t: "trim xs = rev ?b" by (simp add: trim_def)
  with ne have bne: "?b \<noteq> []" by simp
  then have l: "\<not> is_space (hd ?b)" by (rule hd_dropWhile_not)
  have la: "last (trim xs) = hd ?b" using bne t by (simp add: last_rev)
  from bne have "rev ?a \<noteq> []" by (metis dropWhile.simps(1))
  then have ane: "?a \<noteq> []" by simp
  then have ha: "\<not> is_space (hd ?a)" by (rule hd_dropWhile_not)
  have "rev ?a = takeWhile is_space (rev ?a) @ ?b" by simp
  then have "?a = rev ?b @ rev (takeWhile is_space (rev ?a))"
    by (metis rev_append rev_rev_ident)
  with bne have "hd ?a = hd (rev ?b)" by (metis hd_append2 rev_is_Nil_conv)
  with ha t l la show ?thesis by simp
qed

text \<open>
  Claim C8. The filename normalizer is idempotent: for every input string \<open>s\<close>,
  normalizing the already normalized string returns it unchanged.
\<close>

theorem cleanFileName_idempotent: "cleanFileName (cleanFileName s) = cleanFileName s"
proof -
  let ?m = "strip_mentions (strip_ext s)"
  let ?p = "blank_punct ?m"
  let ?c = "collapse_spaces ?p"
  let ?t = "trim ?c"
  have t: "cleanFileName s = ?t" by (simp add: cleanFileName_def)
  have np: "\<forall>c\<in>set ?t. \<not> is_punct c"
    using set_trim collapse_spaces_set blank_punct_no_punct sp_facts(3) by blast
  have "\<not> is_punct 0x2E \<Longrightarrow> False" by (simp add: is_punct_def)
  with np have nodot: "0x2E \<notin> set ?t" by blast
  have nm: "no_mention ?t"
    by (intro successively_trim collapse_spaces_no_mention blank_punct_no_mention
        strip_mentions_no_mention)
  have ss: "single_spaced ?t"
    by (intro successively_trim collapse_spaces_single)
  have sp: "\<forall>c\<in>set ?t. is_space c \<longrightarrow> c = 0x20"
    using set_trim collapse_spaces_set by blast
  have 1: "strip_ext ?t = ?t" using nodot by (rule strip_ext_id)
  have 2: "strip_mentions ?t = ?t" using nm by (rule strip_mentions_id)
  have 3: "blank_punct ?t = ?t" using np by (rule blank_punct_id)
  have 4: "collapse_spaces ?t = ?t" using ss sp by (rule collapse_spaces_id)
  have 5: "trim ?t = ?t" using trim_ends by (intro trim_id) blast
  show ?thesis unfolding t
    by (subst cleanFileName_def) (simp only: 1 2 3 4 5)
qed

subsection \<open>Dispatch and the membership check\<close>

lemma startsWith_hd: "startsWith (c # p) d \<Longrightarrow> d \<noteq> [] \<and> hd d = c"
  by (cases d) (auto simp: startsWith_def)

lemma js_Cons: "js (c # cs) = of_nat (of_char c) # js cs" and js_Nil: "js [] = []"
  by (simp_all add: js_def)

lemma startsWith_agree:
  assumes "startsWith p d" and "startsWith p' d"
  shows "take (length p') p = take (length p) p'"
proof -
  have "take (length p') p = take (length p') (take (length p) d)"
    using assms(1) by (simp add: startsWith_def)
  also have "\<dots> = take (length p) (take (length p') d)"
    by (simp add: min.commute)
  also have "\<dots> = take (length p) p'"
    using assms(2) by (simp add: startsWith_def)
  finally show ?thesis .
qed

lemma not_check_join:
  "startsWith (js ''CONFIRM:'') d \<Longrightarrow> d \<noteq> js ''CHECK_JOIN''"
  "startsWith (js ''CANCEL:'') d \<Longrightarrow> d \<noteq> js ''CHECK_JOIN''"
  "startsWith (js ''GET:'') d \<Longrightarrow> d \<noteq> js ''CHECK_JOIN''"
  "startsWith (js ''PAGE:'') d \<Longrightarrow> d \<noteq> js ''CHECK_JOIN''"
  "startsWith (js ''FAV:'') d \<Longrightarrow> d \<noteq> js ''CHECK_JOIN''"
  by (auto simp: startsWith_def js_def)

lemma cancel_prefix: "startsWith (js ''CANCEL:'') d \<Longrightarrow> \<not> startsWith (js ''CONFIRM:'') d"
  using startsWith_agree[of "js ''CANCEL:''" d "js ''CONFIRM:''"] by (auto simp: js_def)

lemma get_prefix:
  "startsWith (js ''GET:'') d \<Longrightarrow> \<not> startsWith (js ''CONFIRM:'') d"
  "startsWith (js ''GET:'') d \<Longrightarrow> \<not> startsWith (js ''CANCEL:'') d"
  using startsWith_agree[of "js ''GET:''" d "js ''CONFIRM:''"]
    startsWith_agree[of "js ''GET:''" d "js ''CANCEL:''"] by (auto simp: js_def)

lemma page_prefix:
  "startsWith (js ''PAGE:'') d \<Longrightarrow> \<not> startsWith (js ''CONFIRM:'') d"
  "startsWith (js ''PAGE:'') d \<Longrightarrow> \<not> startsWith (js ''CANCEL:'') d"
  "startsWith (js ''PAGE:'') d \<Longrightarrow> \<not> startsWith (js ''GET:'') d"
  using startsWith_agree[of "js ''PAGE:''" d "js ''CONFIRM:''"]
    startsWith_agree[of "js ''PAGE:''" d "js ''CANCEL:''"]
    startsWith_agree[of "js ''PAGE:''" d "js ''GET:''"] by (auto simp: js_def)

lemma fav_prefix:
  "startsWith (js ''FAV:'') d \<Longrightarrow> \<not> startsWith (js ''CONFIRM:'') d"
  "startsWith (js ''FAV:'') d \<Longrightarrow> \<not> startsWith (js ''CANCEL:'') d"
  "startsWith (js ''FAV:'') d \<Longrightarrow> \<not> startsWith (js ''GET:'') d"
  "startsWith (js ''FAV:'') d \<Longrightarrow> \<not> startsWith (js ''PAGE:'') d"
  using startsWith_agree[of "js ''FAV:''" d "js ''CONFIRM:''"]
    startsWith_agree[of "js ''FAV:''" d "js ''CANCEL:''"]
    startsWith_agree[of "js ''FAV:''" d "js ''GET:''"]
    startsWith_agree[of "js ''FAV:''" d "js ''PAGE:''"] by (auto simp: js_def)

lemma callback_actions_confirm:
  "startsWith (js ''CONFIRM:'') (q_data q) \<Longrightarrow> callback_actions cfg w s q = on_confirm cfg w s q"
  by (simp add: callback_actions_def)

lemma callback_actions_cancel:
  "startsWith (js ''CANCEL:'') (q_data q) \<Longrightarrow> callback_actions cfg w s q = on_cancel cfg w s q"
  by (simp add: callback_actions_def cancel_prefix)

lemma callback_actions_get:
  "startsWith (js ''GET:'') (q_data q) \<Longrightarrow> callback_actions cfg w s q = on_get cfg w s q"
  by (simp add: callback_actions_def get_prefix)

lemma callback_actions_page:
  "startsWith (js ''PAGE:'') (q_data q) \<Longrightarrow> callback_actions cfg w s q = on_page cfg w s q"
  by (simp add: callback_actions_def page_prefix)

lemma callback_actions_fav:
  "startsWith (js ''FAV:'') (q_data q) \<Longrightarrow> callback_actions cfg w s q = on_fav w s q"
  by (simp add: callback_actions_def fav_prefix)

lemma published_ids_simps [simp]:
  "published_ids [] = []"
  "published_ids (c # cs) = (case published_id c of None \<Rightarrow> published_ids cs
                             | Some i \<Rightarrow> i # published_ids cs)"
  "published_ids (cs @ cs') = published_ids cs @ published_ids cs'"
  by (simp_all add: published_ids_def List.map_filter_def split: option.splits)

lemma query_membership_frame:
  "query_membership w s channel chat u = (ok, s1, cs) \<Longrightarrow>
     s1 = s\<lparr>member_cache := member_cache s1\<rparr> \<and> published_ids cs = []"
  by (auto simp: query_membership_def Let_def
      split: sum.splits option.splits if_splits)

lemma verifyJoin_frame:
  "verifyJoin cfg w s chat u = (ok, s1, cs) \<Longrightarrow>
     s1 = s\<lparr>member_cache := member_cache s1\<rparr> \<and> published_ids cs = []"
  by (auto simp: verifyJoin_def
      split: option.splits if_splits prod.splits dest: query_membership_frame)

lemma verifyJoin_fields:
  assumes "verifyJoin cfg w s chat u = (ok, s1, cs)"
  shows "users s1 = users s" "files s1 = files s" "counters s1 = counters s"
    "limits s1 = limits s" "favorites s1 = favorites s" "pendings s1 = pendings s"
    "search_cache s1 = search_cache s"
proof -
  from verifyJoin_frame[OF assms] have e: "s1 = s\<lparr>member_cache := member_cache s1\<rparr>" by simp
  show "users s1 = users s" by (subst e) simp
  show "files s1 = files s" by (subst e) simp
  show "counters s1 = counters s" by (subst e) simp
  show "limits s1 = limits s" by (subst e) simp
  show "favorites s1 = favorites s" by (subst e) simp
  show "pendings s1 = pendings s" by (subst e) simp
  show "search_cache s1 = search_cache s" by (subst e) simp
qed

lemma callback_query_gated:
  assumes "q_data q \<noteq> js ''CHECK_JOIN''"
    and "verifyJoin cfg w s (q_chat q) (q_from q) = (True, s1, cs)"
  shows "callback_query cfg w s q =
     (fst (callback_actions cfg w s1 q), cs @ snd (callback_actions cfg w s1 q))"
  using assms by (simp add: callback_query_def split: prod.splits)

lemma callback_query_blocked:
  assumes "q_data q \<noteq> js ''CHECK_JOIN''"
    and "verifyJoin cfg w s (q_chat q) (q_from q) = (False, s1, cs)"
  shows "callback_query cfg w s q = (s1, cs @ [AnswerCallbackQuery (q_id q) MustJoinFirst])"
  using assms by (simp add: callback_query_def)

lemma admin_passes_gate: "u \<in> ADMIN_SET cfg \<Longrightarrow> verifyJoin cfg w s chat u = (True, s, [])"
  by (simp add: verifyJoin_def split: option.splits)

subsection \<open>Downloads and quota\<close>

lemma delivered_simps [simp]:
  "delivered w [] = False"
  "delivered w (c # cs) = ((is_file_send c \<and> tg w c = None) \<or> delivered w cs)"
  "delivered w (cs @ cs') = (delivered w cs \<or> delivered w cs')"
  by (auto simp: delivered_def)

lemma is_file_send_simps [simp]:
  "is_file_send (SendMessage t n) = False"
  "is_file_send (EditMessageText a b n) = False"
  "is_file_send (AnswerCallbackQuery i n) = False"
  "is_file_send (DeleteMessage a b) = False"
  "is_file_send (CopyMessage u a b) = False"
  "is_file_send (ExportChatInviteLink ch) = False"
  "is_file_send (SendVideo chat x y) = True"
  "is_file_send (SendDocument chat x y) = True"
  "is_file_send (file_send chat f) = True"
  by (simp_all add: is_file_send_def file_send_def)

lemma published_id_file_send [simp]: "published_id (file_send chat f) = None"
  by (simp add: file_send_def)

lemma query_membership_quiet:
  "query_membership w s channel chat u = (ok, s1, cs) \<Longrightarrow> \<not> delivered w' cs"
  by (auto simp: query_membership_def Let_def split: sum.splits option.splits if_splits)

lemma verifyJoin_quiet: "verifyJoin cfg w s chat u = (ok, s1, cs) \<Longrightarrow> \<not> delivered w' cs"
  by (auto simp: verifyJoin_def split: option.splits if_splits prod.splits
      dest: query_membership_quiet)

lemma saveUser_fields [simp]:
  "files (saveUser s u) = files s" "counters (saveUser s u) = counters s"
  "limits (saveUser s u) = limits s" "favorites (saveUser s u) = favorites s"
  "pendings (saveUser s u) = pendings s" "member_cache (saveUser s u) = member_cache s"
  "search_cache (saveUser s u) = search_cache s"
  by (simp_all add: saveUser_def)

lemma getUserLimitCount_cong:
  "limits s1 = limits s \<Longrightarrow> getUserLimitCount w s1 u = getUserLimitCount w s u"
  by (simp add: getUserLimitCount_def)

lemma awaited_simps [simp]:
  "published_ids (awaited w q c) = published_ids [c]"
  "delivered w' (awaited w q c) = delivered w' [c]"
  by (simp_all add: awaited_def split: option.splits)

lemma find_file_Some: "find_file cid fs = Some i \<Longrightarrow> i < length fs \<and> customId (fs ! i) = cid"
proof -
  assume a: "find_file cid fs = Some i"
  let ?l = "filter (\<lambda>i. customId (fs ! i) = cid) [0 ..< length fs]"
  from a obtain r where "?l = i # r" by (auto simp: find_file_def split: list.splits)
  then have "i \<in> set ?l" by simp
  then show ?thesis by simp
qed

lemma find_file_None: "find_file cid fs = None \<Longrightarrow> cid \<notin> customId ` set fs"
proof -
  assume a: "find_file cid fs = None"
  then have e: "filter (\<lambda>i. customId (fs ! i) = cid) [0 ..< length fs] = []"
    by (auto simp: find_file_def split: list.splits)
  show ?thesis
  proof
    assume "cid \<in> customId ` set fs"
    then obtain i where "i < length fs" "customId (fs ! i) = cid"
      by (auto simp: in_set_conv_nth)
    then have "i \<in> set (filter (\<lambda>i. customId (fs ! i) = cid) [0 ..< length fs])" by simp
    with e show False by simp
  qed
qed

lemma on_get_blocked:
  "DAILY_LIMIT_NUM cfg \<le> int (getUserLimitCount w s (q_from q)) \<Longrightarrow>
     fst (on_get cfg w s q) = s \<and> \<not> delivered w' (snd (on_get cfg w s q))"
  by (simp add: on_get_def Let_def split: option.splits)

lemma search_by_id_blocked:
  "DAILY_LIMIT_NUM cfg \<le> int (getUserLimitCount w s u) \<Longrightarrow>
     fst (search_by_id cfg w s chat u t) = s \<and> \<not> delivered w' (snd (search_by_id cfg w s chat u t))"
  by (simp add: search_by_id_def Let_def split: option.splits)

lemma keyword_search_frame:
  "files (fst (keyword_search cfg w s chat u t)) = files s"
  "limits (fst (keyword_search cfg w s chat u t)) = limits s"
  "counters (fst (keyword_search cfg w s chat u t)) = counters s"
  "favorites (fst (keyword_search cfg w s chat u t)) = favorites s"
  "pendings (fst (keyword_search cfg w s chat u t)) = pendings s"
  "\<not> delivered w' (snd (keyword_search cfg w s chat u t))"
  "published_ids (snd (keyword_search cfg w s chat u t)) = []"
  by (simp_all add: keyword_search_def Let_def)

lemma upload_frame:
  "files (fst (upload cfg w s m u a)) = files s"
  "limits (fst (upload cfg w s m u a)) = limits s"
  "counters (fst (upload cfg w s m u a)) = counters s"
  "favorites (fst (upload cfg w s m u a)) = favorites s"
  "\<not> delivered w' (snd (upload cfg w s m u a))"
  "published_ids (snd (upload cfg w s m u a)) = []"
  by (simp_all add: upload_def Let_def)

subsection \<open>What each handler changes\<close>

lemma inc_downloads_nth:
  "i < length fs \<Longrightarrow> downloads (inc_downloads i fs ! i) = downloads (fs ! i) + 1"
  by (simp add: inc_downloads_def)

lemma is_custom_id_plain: "is_custom_id t \<Longrightarrow> t \<noteq> [] \<and> \<not> startsWith (js ''/'') t"
  by (cases t) (auto simp: is_custom_id_def startsWith_def js_def)

lemma incrementAndGetLimit_fields [simp]:
  "files (snd (incrementAndGetLimit w s u)) = files s"
  "counters (snd (incrementAndGetLimit w s u)) = counters s"
  "favorites (snd (incrementAndGetLimit w s u)) = favorites s"
  "pendings (snd (incrementAndGetLimit w s u)) = pendings s"
  "users (snd (incrementAndGetLimit w s u)) = users s"
  by (simp_all add: incrementAndGetLimit_def Let_def)

lemma incrementAndGetLimit_count:
  "getUserLimitCount w (snd (incrementAndGetLimit w s u)\<lparr>files := fs\<rparr>) u = getUserLimitCount w s u + 1"
  by (simp add: incrementAndGetLimit_def getUserLimitCount_def Let_def update_conv'
      split: option.splits)

lemma on_get_served:
  assumes "find_file (arg1 (q_data q)) (files s) = Some i"
    and "int (getUserLimitCount w s (q_from q)) < DAILY_LIMIT_NUM cfg"
    and "tg w (AnswerCallbackQuery (q_id q) SendingFile) = None"
  shows "on_get cfg w s q =
     (snd (incrementAndGetLimit w s (q_from q))\<lparr>files := inc_downloads i (files s)\<rparr>,
      AnswerCallbackQuery (q_id q) SendingFile # awaited w q (file_send (q_chat q) (files s ! i)))"
  using assms by (simp add: on_get_def Let_def)

lemma search_by_id_served:
  assumes "find_file (toUpperCase cfg t) (files s) = Some i"
    and "int (getUserLimitCount w s u) < DAILY_LIMIT_NUM cfg"
  shows "search_by_id cfg w s chat u t =
     (snd (incrementAndGetLimit w s u)\<lparr>files := inc_downloads i (files s)\<rparr>,
      [file_send chat (files s ! i)])"
  using assms by (simp add: search_by_id_def Let_def)

lemma on_message_search:
  assumes "m_from m = Some u"
    and "u \<notin> ADMIN_SET cfg \<or> m_attachment m = None"
    and "is_custom_id (trim (text_of (m_text m)))"
    and "verifyJoin cfg w (saveUser s u) (m_chat m) u = (True, s1, cs)"
  shows "on_message cfg w s m =
     (fst (search_by_id cfg w s1 (m_chat m) u (trim (text_of (m_text m)))),
      cs @ snd (search_by_id cfg w s1 (m_chat m) u (trim (text_of (m_text m)))))"
  using assms is_custom_id_plain[OF assms(3)]
  by (auto simp: on_message_def Let_def case_prod_beta)


lemma files_step_refl [simp]: "files_step fs fs"
  by (simp add: files_step_def)

lemma files_step_inc: "i < length fs \<Longrightarrow> files_step fs (inc_downloads i fs)"
  by (auto simp: files_step_def)

lemma files_step_app:
  "downloads f = 0 \<Longrightarrow> file_id f \<notin> file_id ` set fs \<Longrightarrow> customId f \<notin> customId ` set fs
     \<Longrightarrow> files_step fs (fs @ [f])"
  by (simp add: files_step_def)

lemma files_step_delete: "files_step fs (delete_file cid fs)"
  by (auto simp: files_step_def delete_file_def split: option.splits dest: find_file_Some)

lemma seq_of_cong: "counters s1 = counters s \<Longrightarrow> seq_of s1 = seq_of s"
  by (simp add: seq_of_def)

lemma nextSequence_effect:
  "nextSequence s (js ''file'') = (cid, s1) \<Longrightarrow>
     cid = format_id (Suc (seq_of s)) \<and> seq_of s1 = Suc (seq_of s)
     \<and> s1 = s\<lparr>counters := counters s1\<rparr>"
  by (auto simp: nextSequence_def seq_of_def Let_def split: option.splits)

lemma search_by_id_effect:
  "counters (fst (search_by_id cfg w s chat u t)) = counters s"
  "favorites (fst (search_by_id cfg w s chat u t)) = favorites s"
  "published_ids (snd (search_by_id cfg w s chat u t)) = []"
  "files_step (files s) (files (fst (search_by_id cfg w s chat u t)))"
  by (auto simp: search_by_id_def Let_def files_step_inc split: option.splits
      dest: find_file_Some)

lemma on_get_effect:
  "counters (fst (on_get cfg w s q)) = counters s"
  "favorites (fst (on_get cfg w s q)) = favorites s"
  "published_ids (snd (on_get cfg w s q)) = []"
  "files_step (files s) (files (fst (on_get cfg w s q)))"
  by (auto simp: on_get_def Let_def files_step_inc split: option.splits
      dest: find_file_Some)

lemma on_cancel_effect:
  "counters (fst (on_cancel cfg w s q)) = counters s"
  "favorites (fst (on_cancel cfg w s q)) = favorites s"
  "published_ids (snd (on_cancel cfg w s q)) = []"
  "files (fst (on_cancel cfg w s q)) = files s"
  by (simp_all add: on_cancel_def Let_def)

lemma on_page_effect:
  "fst (on_page cfg w s q) = s"
  "published_ids (snd (on_page cfg w s q)) = []"
  by (simp_all add: on_page_def split: option.splits prod.splits)

lemma on_fav_effect:
  "counters (fst (on_fav w s q)) = counters s"
  "files (fst (on_fav w s q)) = files s"
  "published_ids (snd (on_fav w s q)) = []"
  by (simp_all add: on_fav_def Let_def)

lemma on_confirm_effect:
  "favorites (fst (on_confirm cfg w s q)) = favorites s"
  "files_step (files s) (files (fst (on_confirm cfg w s q)))"
  "(counters (fst (on_confirm cfg w s q)) = counters s
      \<and> published_ids (snd (on_confirm cfg w s q)) = [])
   \<or> (seq_of (fst (on_confirm cfg w s q)) = Suc (seq_of s)
      \<and> (published_ids (snd (on_confirm cfg w s q)) = []
         \<or> published_ids (snd (on_confirm cfg w s q)) = [format_id (Suc (seq_of s))]))"
proof -
  obtain cid s1 where n: "nextSequence s (js ''file'') = (cid, s1)"
    by (cases "nextSequence s (js ''file'')") auto
  note e = nextSequence_effect[OF n]
  from e have eq: "s1 = s\<lparr>counters := counters s1\<rparr>" by simp
  have f: "files s1 = files s" "favorites s1 = favorites s" "pendings s1 = pendings s"
    by (subst eq, simp)+
  show "favorites (fst (on_confirm cfg w s q)) = favorites s"
    by (simp add: on_confirm_def Let_def n f split: option.splits)
  show "files_step (files s) (files (fst (on_confirm cfg w s q)))"
    by (auto simp: on_confirm_def Let_def n f image_iff intro!: files_step_app
        split: option.splits)
  show "(counters (fst (on_confirm cfg w s q)) = counters s
      \<and> published_ids (snd (on_confirm cfg w s q)) = [])
   \<or> (seq_of (fst (on_confirm cfg w s q)) = Suc (seq_of s)
      \<and> (published_ids (snd (on_confirm cfg w s q)) = []
         \<or> published_ids (snd (on_confirm cfg w s q)) = [format_id (Suc (seq_of s))]))"
    using e by (simp add: on_confirm_def Let_def n seq_of_def split: option.splits)
qed

lemma callback_actions_effect:
  "files_step (files s) (files (fst (callback_actions cfg w s q)))"
  "(counters (fst (callback_actions cfg w s q)) = counters s
      \<and> published_ids (snd (callback_actions cfg w s q)) = [])
   \<or> (seq_of (fst (callback_actions cfg w s q)) = Suc (seq_of s)
      \<and> (published_ids (snd (callback_actions cfg w s q)) = []
         \<or> published_ids (snd (callback_actions cfg w s q)) = [format_id (Suc (seq_of s))]))"
  using on_confirm_effect[where cfg=cfg and w=w and s=s and q=q]
  by (simp_all add: callback_actions_def on_cancel_effect on_get_effect on_page_effect
      on_fav_effect)

lemma callback_query_effect:
  "files_step (files s) (files (fst (callback_query cfg w s q)))"
  "(counters (fst (callback_query cfg w s q)) = counters s
      \<and> published_ids (snd (callback_query cfg w s q)) = [])
   \<or> (seq_of (fst (callback_query cfg w s q)) = Suc (seq_of s)
      \<and> (published_ids (snd (callback_query cfg w s q)) = []
         \<or> published_ids (snd (callback_query cfg w s q)) = [format_id (Suc (seq_of s))]))"
proof -
  let ?s0 = "s\<lparr>member_cache := (member_cache s)(q_from q := None)\<rparr>"
  obtain ok0 s0 cs0 where g0: "verifyJoin cfg w ?s0 (q_chat q) (q_from q) = (ok0, s0, cs0)"
    by (cases "verifyJoin cfg w ?s0 (q_chat q) (q_from q)") auto
  obtain ok s1 cs where g: "verifyJoin cfg w s (q_chat q) (q_from q) = (ok, s1, cs)"
    by (cases "verifyJoin cfg w s (q_chat q) (q_from q)") auto
  note f0 = verifyJoin_fields[OF g0] and p0 = verifyJoin_frame[OF g0]
  note f = verifyJoin_fields[OF g] and p = verifyJoin_frame[OF g]
  note ca = callback_actions_effect[where cfg=cfg and w=w and s=s1 and q=q]
  show "files_step (files s) (files (fst (callback_query cfg w s q)))"
    using ca(1) by (simp add: callback_query_def g g0 f f0 case_prod_beta)
  show "(counters (fst (callback_query cfg w s q)) = counters s
      \<and> published_ids (snd (callback_query cfg w s q)) = [])
   \<or> (seq_of (fst (callback_query cfg w s q)) = Suc (seq_of s)
      \<and> (published_ids (snd (callback_query cfg w s q)) = []
         \<or> published_ids (snd (callback_query cfg w s q)) = [format_id (Suc (seq_of s))]))"
    using ca(2) p p0
    by (simp add: callback_query_def g g0 f f0 case_prod_beta seq_of_cong[OF f(3)])
qed

lemma on_message_effect:
  "files_step (files s) (files (fst (on_message cfg w s m)))"
  "counters (fst (on_message cfg w s m)) = counters s"
  "favorites (fst (on_message cfg w s m)) = favorites s"
  "published_ids (snd (on_message cfg w s m)) = []"
proof -
  show "files_step (files s) (files (fst (on_message cfg w s m)))"
  proof (cases "m_from m")
    case None
    then show ?thesis by (simp add: on_message_def)
  next
    case (Some u)
    obtain ok s1 cs where g: "verifyJoin cfg w (saveUser s u) (m_chat m) u = (ok, s1, cs)"
      by (cases "verifyJoin cfg w (saveUser s u) (m_chat m) u") auto
    note f = verifyJoin_fields[OF g]
    from f(2) have fs: "files s1 = files s" by simp
    show ?thesis
      using search_by_id_effect(4)[where cfg=cfg and w=w and s=s1 and chat="m_chat m" and u=u and t="trim (text_of (m_text m))"]
      by (simp add: on_message_def Some Let_def g case_prod_beta upload_frame
          keyword_search_frame fs split: option.splits)
  qed
  show "counters (fst (on_message cfg w s m)) = counters s"
  proof (cases "m_from m")
    case None
    then show ?thesis by (simp add: on_message_def)
  next
    case (Some u)
    obtain ok s1 cs where g: "verifyJoin cfg w (saveUser s u) (m_chat m) u = (ok, s1, cs)"
      by (cases "verifyJoin cfg w (saveUser s u) (m_chat m) u") auto
    note f = verifyJoin_fields[OF g]
    from f(3) have fs: "counters s1 = counters s" by simp
    show ?thesis
      by (simp add: on_message_def Some Let_def g case_prod_beta upload_frame
          keyword_search_frame search_by_id_effect fs split: option.splits)
  qed
  show "favorites (fst (on_message cfg w s m)) = favorites s"
  proof (cases "m_from m")
    case None
    then show ?thesis by (simp add: on_message_def)
  next
    case (Some u)
    obtain ok s1 cs where g: "verifyJoin cfg w (saveUser s u) (m_chat m) u = (ok, s1, cs)"
      by (cases "verifyJoin cfg w (saveUser s u) (m_chat m) u") auto
    note f = verifyJoin_fields[OF g]
    from f(5) have fs: "favorites s1 = favorites s" by simp
    show ?thesis
      by (simp add: on_message_def Some Let_def g case_prod_beta upload_frame
          keyword_search_frame search_by_id_effect fs split: option.splits)
  qed
  show "published_ids (snd (on_message cfg w s m)) = []"
  proof (cases "m_from m")
    case None
    then show ?thesis by (simp add: on_message_def)
  next
    case (Some u)
    obtain ok s1 cs where g: "verifyJoin cfg w (saveUser s u) (m_chat m) u = (ok, s1, cs)"
      by (cases "verifyJoin cfg w (saveUser s u) (m_chat m) u") auto
    note p = verifyJoin_frame[OF g]
    show ?thesis using p
      by (simp add: on_message_def Some Let_def g case_prod_beta upload_frame
          keyword_search_frame search_by_id_effect split: option.splits)
  qed
qed

lemma gated_command_effect:
  "files (fst (gated_command cfg w s m r)) = files s"
  "counters (fst (gated_command cfg w s m r)) = counters s"
  "favorites (fst (gated_command cfg w s m r)) = favorites s"
  "published_ids (snd (gated_command cfg w s m r)) = []"
proof -
  have "files (fst (gated_command cfg w s m r)) = files s
      \<and> counters (fst (gated_command cfg w s m r)) = counters s
      \<and> favorites (fst (gated_command cfg w s m r)) = favorites s
      \<and> published_ids (snd (gated_command cfg w s m r)) = []"
  proof (cases "m_from m")
    case None
    then show ?thesis by (simp add: gated_command_def)
  next
    case (Some u)
    obtain ok s1 cs where g: "verifyJoin cfg w (saveUser s u) (m_chat m) u = (ok, s1, cs)"
      by (cases "verifyJoin cfg w (saveUser s u) (m_chat m) u") auto
    note f = verifyJoin_fields[OF g] and p = verifyJoin_frame[OF g]
    show ?thesis using f p by (simp add: gated_command_def Some g)
  qed
  then show "files (fst (gated_command cfg w s m r)) = files s"
    "counters (fst (gated_command cfg w s m r)) = counters s"
    "favorites (fst (gated_command cfg w s m r)) = favorites s"
    "published_ids (snd (gated_command cfg w s m r)) = []" by simp_all
qed

lemma on_favorites_effect:
  "files (fst (on_favorites cfg w s m)) = files s"
  "counters (fst (on_favorites cfg w s m)) = counters s"
  "favorites (fst (on_favorites cfg w s m)) = favorites s"
  "published_ids (snd (on_favorites cfg w s m)) = []"
proof -
  have "files (fst (on_favorites cfg w s m)) = files s
      \<and> counters (fst (on_favorites cfg w s m)) = counters s
      \<and> favorites (fst (on_favorites cfg w s m)) = favorites s
      \<and> published_ids (snd (on_favorites cfg w s m)) = []"
  proof (cases "m_from m")
    case None
    then show ?thesis by (simp add: on_favorites_def)
  next
    case (Some u)
    obtain ok s1 cs where g: "verifyJoin cfg w (saveUser s u) (m_chat m) u = (ok, s1, cs)"
      by (cases "verifyJoin cfg w (saveUser s u) (m_chat m) u") auto
    note f = verifyJoin_fields[OF g] and p = verifyJoin_frame[OF g]
    show ?thesis using f p by (simp add: on_favorites_def Some g Let_def)
  qed
  then show "files (fst (on_favorites cfg w s m)) = files s"
    "counters (fst (on_favorites cfg w s m)) = counters s"
    "favorites (fst (on_favorites cfg w s m)) = favorites s"
    "published_ids (snd (on_favorites cfg w s m)) = []" by simp_all
qed

lemma broadcast_loop_calls:
  "snd (snd (broadcast_loop w chat t reply us a b cs)) = cs @ map (broadcast_call chat t reply) us"
  by (induction us arbitrary: a b cs) (auto split: option.splits)

lemma published_ids_broadcast [simp]:
  "published_ids (map (broadcast_call chat t reply) us) = []"
  by (induction us) (auto simp: broadcast_call_def split: option.splits)

lemma on_broadcast_effect:
  "fst (on_broadcast cfg w s m x) = s"
  "published_ids (snd (on_broadcast cfg w s m x)) = []"
  using broadcast_loop_calls[where w=w and chat="m_chat m" and t=x and reply="m_reply_to m" and us="users s" and a=0 and b=0 and cs="[]"]
  by (auto simp: on_broadcast_def Let_def case_prod_beta split: option.splits)

lemma simple_effects:
  "fst (on_help cfg w s m) = s" "published_ids (snd (on_help cfg w s m)) = []"
  "fst (on_stats cfg w s m) = s" "published_ids (snd (on_stats cfg w s m)) = []"
  "files (fst (on_myaccount cfg w s m)) = files s"
  "counters (fst (on_myaccount cfg w s m)) = counters s"
  "favorites (fst (on_myaccount cfg w s m)) = favorites s"
  "published_ids (snd (on_myaccount cfg w s m)) = []"
  "counters (fst (on_delete cfg w s m x)) = counters s"
  "favorites (fst (on_delete cfg w s m x)) = favorites s"
  "published_ids (snd (on_delete cfg w s m x)) = []"
  "files_step (files s) (files (fst (on_delete cfg w s m x)))"
  by (simp_all add: on_help_def on_stats_def on_myaccount_def on_delete_def Let_def
      files_step_delete split: option.splits)

lemma step_files: "files_step (files s) (files (fst (step cfg w s ev)))"
proof (cases ev)
  case (CacheExpired k)
  then show ?thesis by (cases k) simp_all
qed (simp_all add: on_message_effect callback_query_effect on_start_def on_recent_def
    on_trending_def gated_command_effect on_favorites_effect on_broadcast_effect simple_effects)

lemma step_favorites:
  "(\<forall>q. ev \<noteq> CallbackQuery q) \<Longrightarrow> favorites (fst (step cfg w s ev)) = favorites s"
proof (cases ev)
  case (CacheExpired k)
  then show ?thesis by (cases k) simp_all
qed (simp_all add: on_message_effect on_start_def on_recent_def
    on_trending_def gated_command_effect on_favorites_effect on_broadcast_effect simple_effects)

lemma step_sequence:
  "(counters (fst (step cfg w s ev)) = counters s
      \<and> published_ids (snd (step cfg w s ev)) = [])
   \<or> (seq_of (fst (step cfg w s ev)) = Suc (seq_of s)
      \<and> (published_ids (snd (step cfg w s ev)) = []
         \<or> published_ids (snd (step cfg w s ev)) = [format_id (Suc (seq_of s))]))"
proof (cases ev)
  case (CacheExpired k)
  then show ?thesis by (cases k) simp_all
next
  case (CallbackQuery q)
  then show ?thesis using callback_query_effect(2)[where cfg=cfg and w=w and s=s and q=q] by simp
qed (simp_all add: on_message_effect on_start_def on_recent_def
    on_trending_def gated_command_effect on_favorites_effect on_broadcast_effect simple_effects)

subsection \<open>The favorites invariant\<close>

lemma fav_count_simps [simp]:
  "fav_count [] u = 0"
  "fav_count (d # ds) u = (if fst d = u then Suc (fav_count ds u) else fav_count ds u)"
  "fav_count (ds @ es) u = fav_count ds u + fav_count es u"
  by (simp_all add: fav_count_def)

lemma fav_count_remove1: "fav_count (remove1 d ds) u \<le> fav_count ds u"
  by (induction ds) auto

lemma fav_count_zero: "u \<notin> fst ` set ds \<Longrightarrow> fav_count ds u = 0"
  by (induction ds) auto

lemma fav_inv_bound: "fav_inv s \<Longrightarrow> fav_count (favorites s) u \<le> 50"
proof (cases "u \<in> fst ` set (favorites s)")
  case True
  assume "fav_inv s"
  then have "\<forall>d\<in>set (favorites s). fav_count (favorites s) (fst d) \<le> 50"
    by (simp add: fav_inv_def list_all_iff)
  with True show ?thesis by auto
next
  case False
  then show ?thesis by (simp add: fav_count_zero)
qed

lemma fav_invI:
  "distinct (favorites s) \<Longrightarrow> (\<And>u. fav_count (favorites s) u \<le> 50) \<Longrightarrow> fav_inv s"
  by (simp add: fav_inv_def list_all_iff)

lemma fav_inv_cong: "favorites s1 = favorites s \<Longrightarrow> fav_inv s1 = fav_inv s"
  by (simp add: fav_inv_def)

lemma on_fav_inv: "fav_inv s \<Longrightarrow> fav_inv (fst (on_fav w s q))"
proof -
  assume inv: "fav_inv s"
  then have d: "distinct (favorites s)" by (simp add: fav_inv_def)
  note b = fav_inv_bound[OF inv]
  let ?doc = "(q_from q, arg1 (q_data q))"
  show ?thesis
  proof (cases "?doc \<in> set (favorites s)")
    case True
    have "fav_inv (s\<lparr>favorites := remove1 ?doc (favorites s)\<rparr>)"
    proof (rule fav_invI)
      show "distinct (favorites (s\<lparr>favorites := remove1 ?doc (favorites s)\<rparr>))"
        using d by simp
    next
      fix u
      show "fav_count (favorites (s\<lparr>favorites := remove1 ?doc (favorites s)\<rparr>)) u \<le> 50"
        using fav_count_remove1[of ?doc "favorites s" u] b[of u] by simp
    qed
    with True show ?thesis by (simp add: on_fav_def Let_def)
  next
    case False
    show ?thesis
    proof (cases "50 \<le> fav_count (favorites s) (q_from q)")
      case True
      with False inv show ?thesis by (simp add: on_fav_def Let_def)
    next
      case lt: False
      have "fav_inv (s\<lparr>favorites := favorites s @ [?doc]\<rparr>)"
      proof (rule fav_invI)
        show "distinct (favorites (s\<lparr>favorites := favorites s @ [?doc]\<rparr>))"
          using d False by simp
      next
        fix u
        show "fav_count (favorites (s\<lparr>favorites := favorites s @ [?doc]\<rparr>)) u \<le> 50"
          using lt b[of u] by auto
      qed
      with False lt show ?thesis by (simp add: on_fav_def Let_def)
    qed
  qed
qed

lemma callback_actions_favorites:
  "\<not> startsWith (js ''FAV:'') (q_data q) \<Longrightarrow>
     favorites (fst (callback_actions cfg w s q)) = favorites s"
  by (simp add: callback_actions_def on_confirm_effect on_cancel_effect on_get_effect
      on_page_effect)

lemma callback_actions_inv: "fav_inv s \<Longrightarrow> fav_inv (fst (callback_actions cfg w s q))"
proof (cases "startsWith (js ''FAV:'') (q_data q)")
  case True
  assume "fav_inv s"
  then show ?thesis by (simp add: callback_actions_fav[OF True] on_fav_inv)
next
  case False
  assume "fav_inv s"
  then show ?thesis
    using fav_inv_cong[OF callback_actions_favorites[OF False, of cfg w s]] by simp
qed

lemma callback_query_inv: "fav_inv s \<Longrightarrow> fav_inv (fst (callback_query cfg w s q))"
proof -
  assume inv: "fav_inv s"
  let ?s0 = "s\<lparr>member_cache := (member_cache s)(q_from q := None)\<rparr>"
  obtain ok0 s0 cs0 where g0: "verifyJoin cfg w ?s0 (q_chat q) (q_from q) = (ok0, s0, cs0)"
    by (cases "verifyJoin cfg w ?s0 (q_chat q) (q_from q)") auto
  obtain ok s1 cs where g: "verifyJoin cfg w s (q_chat q) (q_from q) = (ok, s1, cs)"
    by (cases "verifyJoin cfg w s (q_chat q) (q_from q)") auto
  have i0: "fav_inv s0" using inv verifyJoin_fields(5)[OF g0] by (simp add: fav_inv_def)
  have i1: "fav_inv s1" using inv verifyJoin_fields(5)[OF g] by (simp add: fav_inv_def)
  show ?thesis
    using i0 i1 callback_actions_inv[OF i1, of cfg w q]
    by (simp add: callback_query_def g g0 case_prod_beta)
qed

lemma step_inv: "fav_inv s \<Longrightarrow> fav_inv (fst (step cfg w s ev))"
proof (cases "\<exists>q. ev = CallbackQuery q")
  case True
  assume "fav_inv s"
  with True show ?thesis by (auto simp: callback_query_inv)
next
  case False
  assume "fav_inv s"
  with False show ?thesis using fav_inv_cong[OF step_favorites[of ev cfg w s]] by simp
qed

lemma run_inv: "fav_inv s \<Longrightarrow> fav_inv (fst (run cfg s tr))"
proof (induction tr arbitrary: s)
  case Nil
  then show ?case by simp
next
  case (Cons a tr)
  obtain w ev where a: "a = (w, ev)" by (cases a)
  from Cons.prems have "fav_inv (fst (step cfg w s ev))" by (rule step_inv)
  from Cons.IH[OF this] show ?case by (simp add: a case_prod_beta)
qed

lemma query_membership_calls:
  "query_membership w s channel chat u = (ok, s1, cs) \<Longrightarrow> c \<in> set cs \<Longrightarrow>
     c = SendMessage (Chat chat) JoinPrompt \<or> c = ExportChatInviteLink channel"
  by (auto simp: query_membership_def Let_def split: sum.splits option.splits if_splits)

lemma verifyJoin_calls:
  "verifyJoin cfg w s chat u = (ok, s1, cs) \<Longrightarrow> c \<in> set cs \<Longrightarrow>
     c = SendMessage (Chat chat) JoinPrompt \<or> (\<exists>channel. c = ExportChatInviteLink channel)"
  by (auto simp: verifyJoin_def split: option.splits if_splits prod.splits
      dest: query_membership_calls)

subsection \<open>Catalog ids\<close>

lemma digit_value: "n < 10 \<Longrightarrow> unat (of_nat n :: jschar) = n"
proof -
  assume "n < 10"
  then have "n < 2 ^ LENGTH(16)" by simp
  from of_nat_inverse[OF refl this] show ?thesis .
qed

lemma digits_value_String: "digits_value (String_of_nat n) = n"
proof (induction n rule: String_of_nat.induct)
  case (1 n)
  show ?case
  proof (cases "n < 10")
    case True
    then have "String_of_nat n = [0x30 + of_nat n]" by (subst String_of_nat.simps) simp
    with True show ?thesis by (simp add: digit_value)
  next
    case False
    have m: "n mod 10 < 10" by simp
    from False 1 have ih: "digits_value (String_of_nat (n div 10)) = n div 10" by simp
    from False have "String_of_nat n = String_of_nat (n div 10) @ [0x30 + of_nat (n mod 10)]"
      by (subst String_of_nat.simps) simp
    then show ?thesis by (simp add: ih digit_value[OF m])
  qed
qed

lemma digits_value_zeros: "foldl (\<lambda>a c. 10 * a + unat (c - 0x30)) 0 (replicate k (0x30 :: jschar)) = 0"
  by (induction k) simp_all

lemma id_number_format: "id_number (format_id n) = n"
  by (simp add: id_number_def format_id_def padStart_def digits_value_zeros digits_value_String)

lemma format_id_inj: "format_id a = format_id b \<Longrightarrow> a = b"
  by (metis id_number_format)

lemma run_sequence:
  "seq_of s \<le> seq_of (fst (run cfg s tr))
   \<and> sorted_wrt (<) (map id_number (published_ids (snd (run cfg s tr))))
   \<and> (\<forall>c\<in>set (published_ids (snd (run cfg s tr))).
         seq_of s < id_number c \<and> id_number c \<le> seq_of (fst (run cfg s tr)))"
proof (induction tr arbitrary: s)
  case Nil
  then show ?case by simp
next
  case (Cons a tr)
  obtain w ev where a: "a = (w, ev)" by (cases a)
  let ?s1 = "fst (step cfg w s ev)"
  let ?p1 = "published_ids (snd (step cfg w s ev))"
  let ?s2 = "fst (run cfg ?s1 tr)"
  let ?p2 = "published_ids (snd (run cfg ?s1 tr))"
  have r: "fst (run cfg s (a # tr)) = ?s2"
    "published_ids (snd (run cfg s (a # tr))) = ?p1 @ ?p2"
    by (simp_all add: a case_prod_beta)
  have st: "seq_of s \<le> seq_of ?s1 \<and> sorted_wrt (<) (map id_number ?p1)
      \<and> (\<forall>c\<in>set ?p1. seq_of s < id_number c \<and> id_number c \<le> seq_of ?s1)"
    using step_sequence[where cfg=cfg and w=w and s=s and ev=ev]
    by (auto simp: id_number_format dest: seq_of_cong)
  note ih = Cons.IH[of ?s1]
  show ?case unfolding r
    using st ih by (fastforce simp: sorted_wrt_append)
qed

subsection \<open>Unique keys of the catalog\<close>

lemma map_inc_downloads:
  "map file_id (inc_downloads i fs) = map file_id fs"
  "map customId (inc_downloads i fs) = map customId fs"
proof -
  have n: "\<And>j. j < length fs \<Longrightarrow>
      file_id (inc_downloads i fs ! j) = file_id (fs ! j)
      \<and> customId (inc_downloads i fs ! j) = customId (fs ! j)"
    by (cases "i < length fs") (simp_all add: inc_downloads_def nth_list_update)
  have l: "length (inc_downloads i fs) = length fs" by (simp add: inc_downloads_def)
  show "map file_id (inc_downloads i fs) = map file_id fs"
    by (rule nth_equalityI) (simp_all add: l n)
  show "map customId (inc_downloads i fs) = map customId fs"
    by (rule nth_equalityI) (simp_all add: l n)
qed

lemma distinct_map_remove_nth:
  assumes d: "distinct (map f fs)"
  shows "distinct (map f (take i fs @ drop (Suc i) fs))"
proof (cases "i < length fs")
  case True
  have "fs = take i fs @ fs ! i # drop (Suc i) fs" using True by (rule id_take_nth_drop)
  then have "map f fs = map f (take i fs) @ f (fs ! i) # map f (drop (Suc i) fs)"
    by (metis list.simps(9) map_append)
  with d have "distinct (map f (take i fs) @ f (fs ! i) # map f (drop (Suc i) fs))" by simp
  then show ?thesis by auto
next
  case False
  with d show ?thesis by simp
qed

lemma files_step_unique:
  assumes st: "files_step fs fs'"
  shows "distinct (map file_id fs) \<Longrightarrow> distinct (map file_id fs')"
    and "distinct (map customId fs) \<Longrightarrow> distinct (map customId fs')"
proof -
  from st consider "fs' = fs" | i where "fs' = inc_downloads i fs"
    | i where "fs' = take i fs @ drop (Suc i) fs"
    | "fs' \<noteq> []" "butlast fs' = fs" "file_id (last fs') \<notin> file_id ` set fs"
      "customId (last fs') \<notin> customId ` set fs"
    unfolding files_step_def by blast
  note cases = this
  have app: "fs' \<noteq> [] \<Longrightarrow> butlast fs' = fs \<Longrightarrow> fs' = fs @ [last fs']"
    by (metis append_butlast_last_id)
  show "distinct (map file_id fs')" if d: "distinct (map file_id fs)"
  proof (cases rule: cases)
    case 1
    with d show ?thesis by simp
  next
    case (2 i)
    with d show ?thesis by (simp add: map_inc_downloads)
  next
    case (3 i)
    with d show ?thesis by (simp only: distinct_map_remove_nth)
  next
    case 4
    from app[OF 4(1,2)] have "map file_id fs' = map file_id fs @ [file_id (last fs')]"
      by (metis list.simps(8,9) map_append)
    with d 4(3) show ?thesis by simp
  qed
  show "distinct (map customId fs')" if d: "distinct (map customId fs)"
  proof (cases rule: cases)
    case 1
    with d show ?thesis by simp
  next
    case (2 i)
    with d show ?thesis by (simp add: map_inc_downloads)
  next
    case (3 i)
    with d show ?thesis by (simp only: distinct_map_remove_nth)
  next
    case 4
    from app[OF 4(1,2)] have "map customId fs' = map customId fs @ [customId (last fs')]"
      by (metis list.simps(8,9) map_append)
    with d 4(4) show ?thesis by simp
  qed
qed

lemma run_unique_keys:
  "distinct (map file_id (files s)) \<Longrightarrow> distinct (map file_id (files (fst (run cfg s tr))))"
proof (induction tr arbitrary: s)
  case Nil
  then show ?case by simp
next
  case (Cons a tr)
  obtain w ev where a: "a = (w, ev)" by (cases a)
  from files_step_unique(1)[OF step_files Cons.prems]
  have "distinct (map file_id (files (fst (step cfg w s ev))))" .
  from Cons.IH[OF this] show ?case by (simp add: a case_prod_beta)
qed

subsection \<open>Submission\<close>

lemma search_by_id_pendings: "pendings (fst (search_by_id cfg w s chat u t)) = pendings s"
  by (simp add: search_by_id_def Let_def split: option.splits)

lemma nonadmin_submit_ignored:
  assumes "m_from m = Some u" and "u \<notin> ADMIN_SET cfg"
  shows "pendings (fst (on_message cfg w s m)) = pendings s"
proof -
  obtain ok s1 cs where g: "verifyJoin cfg w (saveUser s u) (m_chat m) u = (ok, s1, cs)"
    by (cases "verifyJoin cfg w (saveUser s u) (m_chat m) u") auto
  from verifyJoin_fields(6)[OF g] have p: "pendings s1 = pendings s" by simp
  show ?thesis using assms
    by (simp add: on_message_def Let_def g case_prod_beta search_by_id_pendings
        keyword_search_frame p)
qed

subsection \<open>Broadcast\<close>

lemma broadcast_loop_tally:
  "fst (broadcast_loop w chat t reply us a b cs) + fst (snd (broadcast_loop w chat t reply us a b cs))
     + length (filter (\<lambda>u. tg w (broadcast_call chat t reply u) = Some OtherFailure) us)
   = a + b + length us"
proof (induction us arbitrary: a b cs)
  case Nil
  then show ?case by simp
next
  case (Cons u us)
  show ?case
  proof (cases "tg w (broadcast_call chat t reply u)")
    case None
    then show ?thesis using Cons[of "a + 1" b] by simp
  next
    case (Some err)
    then show ?thesis using Cons[of a "b + 1"] Cons[of a b] by (cases err) simp_all
  qed
qed

lemma broadcast_attempts_everyone:
  assumes "m_from m = Some u" and "u \<in> ADMIN_SET cfg"
    and "text_of x \<noteq> [] \<or> m_reply_to m \<noteq> None"
    and "tg w (SendMessage (Chat (m_chat m)) (Broadcasting (length (users s)))) = None"
  shows "\<exists>success blocked. snd (on_broadcast cfg w s m x) =
      SendMessage (Chat (m_chat m)) (Broadcasting (length (users s)))
        # map (broadcast_call (m_chat m) x (m_reply_to m)) (users s)
        @ [EditMessageText (m_chat m) (sent_message_id w) (BroadcastComplete success blocked)]
     \<and> success + blocked
        + length (filter (\<lambda>u. tg w (broadcast_call (m_chat m) x (m_reply_to m) u)
                                  = Some OtherFailure) (users s))
       = length (users s)"
  using assms
    broadcast_loop_calls[where w=w and chat="m_chat m" and t=x and reply="m_reply_to m"
      and us="users s" and a=0 and b=0 and cs="[]"]
    broadcast_loop_tally[where w=w and chat="m_chat m" and t=x and reply="m_reply_to m"
      and us="users s" and a=0 and b=0 and cs="[]"]
  by (auto simp: on_broadcast_def Let_def case_prod_beta)

subsection \<open>Downloads are counted only with a send\<close>

lemma files_sent_simps [simp]:
  "files_sent [] = []"
  "files_sent (c # cs) = (case file_sent c of None \<Rightarrow> files_sent cs
                          | Some d \<Rightarrow> d # files_sent cs)"
  "files_sent (cs @ cs') = files_sent cs @ files_sent cs'"
  by (simp_all add: files_sent_def List.map_filter_def split: option.splits)

lemma file_sent_file_send [simp]: "file_sent (file_send chat f) = Some (file_id f, customId f)"
  by (simp add: file_sent_def file_send_def)

lemma file_sent_simps [simp]:
  "file_sent (SendMessage t n) = None"
  "file_sent (EditMessageText a b n) = None"
  "file_sent (AnswerCallbackQuery i n) = None"
  "file_sent (DeleteMessage a b) = None"
  "file_sent (CopyMessage u a b) = None"
  "file_sent (ExportChatInviteLink ch) = None"
  by (simp_all add: file_sent_def)

lemma accounted_inc:
  "i < length (files s) \<Longrightarrow> files s' = inc_downloads i (files s) \<Longrightarrow>
     (file_id (files s ! i), customId (files s ! i)) \<in> set (files_sent cs) \<Longrightarrow>
     accounted s s' cs"
  by (auto simp: accounted_def)

lemma accounted_quiet:
  "limits s' = limits s \<Longrightarrow> files s' = files s \<Longrightarrow> accounted s s' cs"
  by (simp add: accounted_def quiet_files_def)

lemma accounted_cong:
  "limits s1 = limits s \<Longrightarrow> files s1 = files s \<Longrightarrow> accounted s1 s' cs = accounted s s' cs"
  by (simp add: accounted_def)

lemma accounted_append: "accounted s s' cs2 \<Longrightarrow> accounted s s' (cs @ cs2)"
  by (auto simp: accounted_def)

lemma accounted_gate:
  assumes g: "verifyJoin cfg w s0 chat u = (ok, s1, cs)"
    and l: "limits s0 = limits s" and f: "files s0 = files s"
    and a: "accounted s1 s2 cs2"
  shows "accounted s s2 (cs @ cs2)"
proof -
  note v = verifyJoin_fields[OF g]
  have "accounted s1 s2 cs2 = accounted s s2 cs2"
    by (rule accounted_cong) (simp_all add: v l f)
  with a show ?thesis by (simp add: accounted_append)
qed

lemma search_by_id_accounted:
  "accounted s (fst (search_by_id cfg w s chat u t)) (snd (search_by_id cfg w s chat u t))"
proof (cases "find_file (toUpperCase cfg t) (files s)")
  case None
  then show ?thesis by (simp add: search_by_id_def accounted_quiet)
next
  case (Some i)
  then have i: "i < length (files s)" using find_file_Some by blast
  show ?thesis
  proof (cases "DAILY_LIMIT_NUM cfg \<le> int (getUserLimitCount w s u)")
    case True
    with Some show ?thesis by (simp add: search_by_id_def Let_def accounted_quiet)
  next
    case False
    with Some i show ?thesis
      by (intro accounted_inc[of i]) (simp_all add: search_by_id_def Let_def)
  qed
qed

lemma on_get_accounted: "accounted s (fst (on_get cfg w s q)) (snd (on_get cfg w s q))"
proof (cases "find_file (arg1 (q_data q)) (files s)")
  case None
  then show ?thesis by (simp add: on_get_def accounted_quiet)
next
  case (Some i)
  then have i: "i < length (files s)" using find_file_Some by blast
  show ?thesis
  proof (cases "DAILY_LIMIT_NUM cfg \<le> int (getUserLimitCount w s (q_from q))")
    case True
    with Some show ?thesis by (simp add: on_get_def Let_def accounted_quiet)
  next
    case False
    show ?thesis
    proof (cases "tg w (AnswerCallbackQuery (q_id q) SendingFile)")
      case None
      with Some i False show ?thesis
        by (intro accounted_inc[of i]) (simp_all add: on_get_def Let_def awaited_def)
    next
      case (Some err)
      with \<open>find_file (arg1 (q_data q)) (files s) = Some i\<close> False show ?thesis
        by (simp add: on_get_def Let_def accounted_quiet)
    qed
  qed
qed

lemma on_confirm_accounted:
  "accounted s (fst (on_confirm cfg w s q)) (snd (on_confirm cfg w s q))"
proof -
  obtain cid s1 where n: "nextSequence s (js ''file'') = (cid, s1)"
    by (cases "nextSequence s (js ''file'')") auto
  from nextSequence_effect[OF n] have eq: "s1 = s\<lparr>counters := counters s1\<rparr>" by simp
  have f: "files s1 = files s" "limits s1 = limits s" by (subst eq, simp)+
  show ?thesis
    by (simp add: on_confirm_def Let_def n f accounted_def quiet_files_def
        split: option.splits)
qed

lemma callback_actions_accounted:
  "accounted s (fst (callback_actions cfg w s q)) (snd (callback_actions cfg w s q))"
  by (simp add: callback_actions_def on_confirm_accounted on_get_accounted accounted_quiet
      on_cancel_def on_page_effect on_fav_def Let_def)

lemma callback_query_accounted:
  "accounted s (fst (callback_query cfg w s q)) (snd (callback_query cfg w s q))"
proof -
  let ?s0 = "s\<lparr>member_cache := (member_cache s)(q_from q := None)\<rparr>"
  obtain ok0 s0 cs0 where g0: "verifyJoin cfg w ?s0 (q_chat q) (q_from q) = (ok0, s0, cs0)"
    by (cases "verifyJoin cfg w ?s0 (q_chat q) (q_from q)") auto
  obtain ok s1 cs where g: "verifyJoin cfg w s (q_chat q) (q_from q) = (ok, s1, cs)"
    by (cases "verifyJoin cfg w s (q_chat q) (q_from q)") auto
  note f0 = verifyJoin_fields[OF g0] and f = verifyJoin_fields[OF g]
  have q0: "\<And>cs'. accounted s s0 cs'" using f0 by (simp add: accounted_quiet)
  have q1: "\<And>cs'. accounted s s1 cs'" using f by (simp add: accounted_quiet)
  have a: "accounted s (fst (callback_actions cfg w s1 q)) (cs @ snd (callback_actions cfg w s1 q))"
    by (rule accounted_gate[OF g refl refl callback_actions_accounted])
  show ?thesis using q0 q1 a
    by (simp add: callback_query_def g g0 case_prod_beta)
qed

lemma on_message_accounted:
  "accounted s (fst (on_message cfg w s m)) (snd (on_message cfg w s m))"
proof (cases "m_from m")
  case None
  then show ?thesis by (simp add: on_message_def accounted_quiet)
next
  case (Some u)
  let ?t = "trim (text_of (m_text m))"
  obtain ok s1 cs where g: "verifyJoin cfg w (saveUser s u) (m_chat m) u = (ok, s1, cs)"
    by (cases "verifyJoin cfg w (saveUser s u) (m_chat m) u") auto
  note f = verifyJoin_fields[OF g]
  have q1: "\<And>cs'. accounted s s1 cs'" using f by (simp add: accounted_quiet)
  have a: "accounted s (fst (search_by_id cfg w s1 (m_chat m) u ?t))
      (cs @ snd (search_by_id cfg w s1 (m_chat m) u ?t))"
    by (rule accounted_gate[OF g _ _ search_by_id_accounted]) simp_all
  have k: "accounted s (fst (keyword_search cfg w s1 (m_chat m) u ?t))
      (cs @ snd (keyword_search cfg w s1 (m_chat m) u ?t))"
    using f by (simp add: accounted_quiet keyword_search_frame)
  have up: "\<And>a. accounted s (fst (upload cfg w s m u a)) (snd (upload cfg w s m u a))"
    by (simp add: accounted_quiet upload_frame)
  show ?thesis using q1 a k up
    by (simp add: on_message_def Some Let_def g case_prod_beta accounted_quiet
        split: option.splits)
qed

lemma gated_command_limits: "limits (fst (gated_command cfg w s m r)) = limits s"
proof (cases "m_from m")
  case None
  then show ?thesis by (simp add: gated_command_def)
next
  case (Some u)
  obtain ok s1 cs where g: "verifyJoin cfg w (saveUser s u) (m_chat m) u = (ok, s1, cs)"
    by (cases "verifyJoin cfg w (saveUser s u) (m_chat m) u") auto
  show ?thesis using verifyJoin_fields(4)[OF g] by (simp add: gated_command_def Some g)
qed

lemma on_favorites_limits: "limits (fst (on_favorites cfg w s m)) = limits s"
proof (cases "m_from m")
  case None
  then show ?thesis by (simp add: on_favorites_def)
next
  case (Some u)
  obtain ok s1 cs where g: "verifyJoin cfg w (saveUser s u) (m_chat m) u = (ok, s1, cs)"
    by (cases "verifyJoin cfg w (saveUser s u) (m_chat m) u") auto
  show ?thesis using verifyJoin_fields(4)[OF g] by (simp add: on_favorites_def Some g Let_def)
qed

lemma on_myaccount_limits: "limits (fst (on_myaccount cfg w s m)) = limits s"
  by (simp add: on_myaccount_def Let_def split: option.splits)

lemma on_delete_accounted:
  "accounted s (fst (on_delete cfg w s m x)) (snd (on_delete cfg w s m x))"
  by (auto simp: on_delete_def Let_def accounted_def quiet_files_def delete_file_def
      split: option.splits dest: find_file_Some)

lemma step_accounted: "accounted s (fst (step cfg w s ev)) (snd (step cfg w s ev))"
proof (cases ev)
  case (CacheExpired k)
  then show ?thesis by (cases k) (simp_all add: accounted_quiet)
qed (simp_all add: on_message_accounted callback_query_accounted on_delete_accounted
    accounted_quiet on_start_def on_recent_def on_trending_def gated_command_effect
    gated_command_limits on_favorites_effect on_favorites_limits on_myaccount_limits
    on_broadcast_effect simple_effects)

lemma accounted_no_send:
  "accounted s s' cs \<Longrightarrow> files_sent cs = [] \<Longrightarrow>
     limits s' = limits s \<and> quiet_files (files s) (files s')"
  by (auto simp: accounted_def)

text \<open>
  Claim C1. A confirm of a pending upload whose \<open>file_id\<close> is already in the
  catalog is rejected as a duplicate: the catalog and the sequence counter are unchanged (no
  second record for that \<open>file_id\<close>, nothing published), the pending entry is
  deleted, and the submitter is told that the file already exists. The confirm is one that
  passed the membership gate, which every administrator does. And no sequence of events
  ever produces two catalog records with one \<open>file_id\<close>.
\<close>

theorem confirm_duplicate_rejected:
  assumes pre: "startsWith (js ''CONFIRM:'') (q_data q)"
    and gate: "verifyJoin cfg w s (q_chat q) (q_from q) = (True, s1, cs)"
    and cast: "castable cfg (arg1 (q_data q))"
    and pend: "pendings s (arg1 (q_data q)) = Some p"
    and dup: "\<exists>f\<in>set (files s). file_id f = file_id p"
  shows "files (fst (callback_query cfg w s q)) = files s
       \<and> counters (fst (callback_query cfg w s q)) = counters s
       \<and> pendings (fst (callback_query cfg w s q)) = (pendings s)(arg1 (q_data q) := None)
       \<and> snd (callback_query cfg w s q) =
            cs @ [EditMessageText (q_chat q) (q_message_id q) FileAlreadyExists]
       \<and> published_ids (snd (callback_query cfg w s q)) = []
       \<and> (distinct (map file_id (files s))
            \<longrightarrow> distinct (map file_id (files (fst (run cfg s tr)))))"
proof -
  note f = verifyJoin_fields[OF gate]
  from pre have ne: "q_data q \<noteq> js ''CHECK_JOIN''" by (rule not_check_join)
  have act: "callback_actions cfg w s1 q =
      (s1\<lparr>pendings := (pendings s1)(arg1 (q_data q) := None)\<rparr>,
       [EditMessageText (q_chat q) (q_message_id q) FileAlreadyExists])"
    using pre cast pend dup
    by (simp add: callback_actions_confirm on_confirm_def f)
  have pub: "published_ids cs = []" using verifyJoin_frame[OF gate] by simp
  show ?thesis
    unfolding callback_query_gated[OF ne gate] act
    by (simp add: f pub run_unique_keys)
qed

theorem confirm_duplicate_rejected_witness:
  "startsWith (js ''CONFIRM:'') (q_data (press (js ''1'') (js ''CONFIRM:64b7f0c2a1d3e4f5a6b7c8d9'')))
   \<and> files (fst (callback_query cfg_gated w_ok s_resubmitted
         (press (js ''1'') (js ''CONFIRM:64b7f0c2a1d3e4f5a6b7c8d9'')))) = [iron_man]
   \<and> pendings (fst (callback_query cfg_gated w_ok s_resubmitted
         (press (js ''1'') (js ''CONFIRM:64b7f0c2a1d3e4f5a6b7c8d9''))))
        (js ''64b7f0c2a1d3e4f5a6b7c8d9'') = None
   \<and> snd (callback_query cfg_gated w_ok s_resubmitted
         (press (js ''1'') (js ''CONFIRM:64b7f0c2a1d3e4f5a6b7c8d9''))) =
        [EditMessageText 5 11 FileAlreadyExists]
   \<and> distinct (map file_id (files s_resubmitted))
   \<and> distinct (map file_id (files (fst (run cfg_gated s_resubmitted
         [(w_ok, CallbackQuery (press (js ''1'') (js ''CONFIRM:64b7f0c2a1d3e4f5a6b7c8d9'')))]))))"
proof -
  let ?q = "press (js ''1'') (js ''CONFIRM:64b7f0c2a1d3e4f5a6b7c8d9'')"
  have a: "arg1 (q_data ?q) = js ''64b7f0c2a1d3e4f5a6b7c8d9''"
    by (simp add: arg1_def press_def js_def)
  have h1: "startsWith (js ''CONFIRM:'') (q_data ?q)"
    by (simp add: startsWith_def press_def js_def)
  have h2: "verifyJoin cfg_gated w_ok s_resubmitted (q_chat ?q) (q_from ?q) = (True, s_resubmitted, [])"
    by (rule admin_passes_gate) (simp add: cfg_gated_def cfg_open_def press_def)
  have h3: "castable cfg_gated (arg1 (q_data ?q))"
    unfolding a by (simp add: cfg_gated_def cfg_open_def js_def is_hex_def is_digit_def)
  have h4: "pendings s_resubmitted (arg1 (q_data ?q)) = Some iron_man_pending"
    unfolding a by (simp add: s_resubmitted_def)
  have h5: "\<exists>f\<in>set (files s_resubmitted). file_id f = file_id iron_man_pending"
    by (simp add: s_resubmitted_def s_catalog_def iron_man_def iron_man_pending_def)
  have h6: "distinct (map file_id (files s_resubmitted))"
    by (simp add: s_resubmitted_def s_catalog_def)
  note r = confirm_duplicate_rejected[OF h1 h2 h3 h4 h5,
      where tr="[(w_ok, CallbackQuery (press (js ''1'') (js ''CONFIRM:64b7f0c2a1d3e4f5a6b7c8d9'')))]"]
  from r h6 have d: "distinct (map file_id (files (fst (run cfg_gated s_resubmitted
      [(w_ok, CallbackQuery (press (js ''1'') (js ''CONFIRM:64b7f0c2a1d3e4f5a6b7c8d9'')))]))))"
    by blast
  from r h1 h6 d show ?thesis
    unfolding a by (simp add: s_resubmitted_def s_catalog_def press_def)
qed

text \<open>
  Claim C2 at a failing input. The upload branch checks the administrator set before it
  creates a pending record (\<open>nonadmin_submit_ignored\<close>), but the
  \<open>CONFIRM:\<close> and \<open>CANCEL:\<close> branches check neither the
  administrator set nor the submitter: with no channel configured, user 999, who is not an
  administrator and not the submitter, publishes administrator 1's pending upload as
  \<open>F0001\<close>, and can equally discard it.
\<close>

theorem nonadmin_confirm_publishes:
  "js ''999'' \<notin> ADMIN_SET cfg_open
   \<and> adminId iron_man_pending = js ''1''
   \<and> files s_pending = []
   \<and> pendings s_pending (js ''64b7f0c2a1d3e4f5a6b7c8d9'') = Some iron_man_pending
   \<and> map customId (files (fst (callback_query cfg_open w_ok s_pending
        (press (js ''999'') (js ''CONFIRM:64b7f0c2a1d3e4f5a6b7c8d9''))))) = [js ''F0001'']
   \<and> pendings (fst (callback_query cfg_open w_ok s_pending
        (press (js ''999'') (js ''CANCEL:64b7f0c2a1d3e4f5a6b7c8d9''))))
        (js ''64b7f0c2a1d3e4f5a6b7c8d9'') = None"
  by code_simp

text \<open>
  Claim C3, as the code has it. The quota count and a \<open>downloads\<close> counter are
  incremented only by a download action that goes on to attempt the delivery: every event
  either leaves the quota ledger and all \<open>downloads\<close> counters alone, or
  increments exactly one record's counter by one and attempts to send that very file; in
  particular an event that attempts no file send (file not found, limit reached, check
  refused, acknowledgement rejected, or any other handler) changes neither. A download
  action that passes the membership check, finds the file and is under the daily limit
  (and, for the \<open>GET:\<close> button, whose acknowledgement was accepted) increments
  the user's quota count and the file's \<open>downloads\<close> counter by exactly one each
  and then attempts the delivery; the file is delivered exactly when that send succeeds,
  and both increments stand whether it does or not. No operation ever lowers a
  \<open>downloads\<close> counter: every event leaves the catalog as it is, increments one
  record by one, deletes one record, or appends a record with count 0.
\<close>

theorem download_accounting:
  "(startsWith (js ''GET:'') (q_data q)
      \<and> verifyJoin cfg w s (q_chat q) (q_from q) = (True, s1, cs)
      \<and> find_file (arg1 (q_data q)) (files s) = Some i
      \<and> int (getUserLimitCount w s (q_from q)) < DAILY_LIMIT_NUM cfg
      \<and> tg w (AnswerCallbackQuery (q_id q) SendingFile) = None
    \<longrightarrow> files (fst (callback_query cfg w s q)) = inc_downloads i (files s)
      \<and> downloads (files (fst (callback_query cfg w s q)) ! i) = downloads (files s ! i) + 1
      \<and> getUserLimitCount w (fst (callback_query cfg w s q)) (q_from q)
          = getUserLimitCount w s (q_from q) + 1
      \<and> file_send (q_chat q) (files s ! i) \<in> set (snd (callback_query cfg w s q))
      \<and> delivered w (snd (callback_query cfg w s q))
          = (tg w (file_send (q_chat q) (files s ! i)) = None))
   \<and> (m_from m = Some u
      \<and> (u \<notin> ADMIN_SET cfg \<or> m_attachment m = None)
      \<and> is_custom_id (trim (text_of (m_text m)))
      \<and> verifyJoin cfg w (saveUser s u) (m_chat m) u = (True, s2, cs2)
      \<and> find_file (toUpperCase cfg (trim (text_of (m_text m)))) (files s) = Some j
      \<and> int (getUserLimitCount w s u) < DAILY_LIMIT_NUM cfg
    \<longrightarrow> files (fst (on_message cfg w s m)) = inc_downloads j (files s)
      \<and> downloads (files (fst (on_message cfg w s m)) ! j) = downloads (files s ! j) + 1
      \<and> getUserLimitCount w (fst (on_message cfg w s m)) u = getUserLimitCount w s u + 1
      \<and> file_send (m_chat m) (files s ! j) \<in> set (snd (on_message cfg w s m))
      \<and> delivered w (snd (on_message cfg w s m))
          = (tg w (file_send (m_chat m) (files s ! j)) = None))
   \<and> files_step (files s) (files (fst (step cfg w s ev)))
   \<and> accounted s (fst (step cfg w s ev)) (snd (step cfg w s ev))
   \<and> (files_sent (snd (step cfg w s ev)) = []
      \<longrightarrow> limits (fst (step cfg w s ev)) = limits s
        \<and> quiet_files (files s) (files (fst (step cfg w s ev))))"
proof (intro conjI impI)
  assume a: "startsWith (js ''GET:'') (q_data q)
      \<and> verifyJoin cfg w s (q_chat q) (q_from q) = (True, s1, cs)
      \<and> find_file (arg1 (q_data q)) (files s) = Some i
      \<and> int (getUserLimitCount w s (q_from q)) < DAILY_LIMIT_NUM cfg
      \<and> tg w (AnswerCallbackQuery (q_id q) SendingFile) = None"
  then have g: "verifyJoin cfg w s (q_chat q) (q_from q) = (True, s1, cs)" by simp
  note f = verifyJoin_fields[OF g] and nd = verifyJoin_quiet[OF g, where w'=w]
  from a have ne: "q_data q \<noteq> js ''CHECK_JOIN''" by (simp add: not_check_join)
  from a have i: "i < length (files s)" using find_file_Some by blast
  have lim: "getUserLimitCount w s1 (q_from q) = getUserLimitCount w s (q_from q)"
    by (rule getUserLimitCount_cong[OF f(4)])
  have served: "on_get cfg w s1 q =
     (snd (incrementAndGetLimit w s1 (q_from q))\<lparr>files := inc_downloads i (files s1)\<rparr>,
      AnswerCallbackQuery (q_id q) SendingFile # awaited w q (file_send (q_chat q) (files s1 ! i)))"
    using a by (intro on_get_served) (simp_all add: f lim)
  have r: "callback_query cfg w s q =
     (snd (incrementAndGetLimit w s1 (q_from q))\<lparr>files := inc_downloads i (files s)\<rparr>,
      cs @ AnswerCallbackQuery (q_id q) SendingFile
           # awaited w q (file_send (q_chat q) (files s ! i)))"
    using a by (simp add: callback_query_gated[OF ne g] callback_actions_get served f)
  show "files (fst (callback_query cfg w s q)) = inc_downloads i (files s)"
    by (simp add: r)
  show "downloads (files (fst (callback_query cfg w s q)) ! i) = downloads (files s ! i) + 1"
    by (simp add: r inc_downloads_nth[OF i])
  show "getUserLimitCount w (fst (callback_query cfg w s q)) (q_from q)
          = getUserLimitCount w s (q_from q) + 1"
    by (simp add: r incrementAndGetLimit_count lim)
  show "file_send (q_chat q) (files s ! i) \<in> set (snd (callback_query cfg w s q))"
    by (simp add: r awaited_def)
  show "delivered w (snd (callback_query cfg w s q))
          = (tg w (file_send (q_chat q) (files s ! i)) = None)"
    using nd by (simp add: r)
next
  assume a: "m_from m = Some u
      \<and> (u \<notin> ADMIN_SET cfg \<or> m_attachment m = None)
      \<and> is_custom_id (trim (text_of (m_text m)))
      \<and> verifyJoin cfg w (saveUser s u) (m_chat m) u = (True, s2, cs2)
      \<and> find_file (toUpperCase cfg (trim (text_of (m_text m)))) (files s) = Some j
      \<and> int (getUserLimitCount w s u) < DAILY_LIMIT_NUM cfg"
  let ?t = "trim (text_of (m_text m))"
  from a have g: "verifyJoin cfg w (saveUser s u) (m_chat m) u = (True, s2, cs2)" by simp
  note f = verifyJoin_fields[OF g] and nd = verifyJoin_quiet[OF g, where w'=w]
  from f have fs: "files s2 = files s" "limits s2 = limits s" by simp_all
  from a have j: "j < length (files s)" using find_file_Some by blast
  have lim: "getUserLimitCount w s2 u = getUserLimitCount w s u"
    by (rule getUserLimitCount_cong[OF fs(2)])
  have served: "search_by_id cfg w s2 (m_chat m) u ?t =
     (snd (incrementAndGetLimit w s2 u)\<lparr>files := inc_downloads j (files s2)\<rparr>,
      [file_send (m_chat m) (files s2 ! j)])"
    using a by (intro search_by_id_served) (simp_all add: fs lim)
  have r: "on_message cfg w s m =
     (snd (incrementAndGetLimit w s2 u)\<lparr>files := inc_downloads j (files s)\<rparr>,
      cs2 @ [file_send (m_chat m) (files s ! j)])"
    using a on_message_search[of m u cfg w s s2 cs2] by (simp add: served fs)
  show "files (fst (on_message cfg w s m)) = inc_downloads j (files s)"
    by (simp add: r)
  show "downloads (files (fst (on_message cfg w s m)) ! j) = downloads (files s ! j) + 1"
    by (simp add: r inc_downloads_nth[OF j])
  show "getUserLimitCount w (fst (on_message cfg w s m)) u = getUserLimitCount w s u + 1"
    by (simp add: r incrementAndGetLimit_count lim)
  show "file_send (m_chat m) (files s ! j) \<in> set (snd (on_message cfg w s m))"
    by (simp add: r)
  show "delivered w (snd (on_message cfg w s m))
          = (tg w (file_send (m_chat m) (files s ! j)) = None)"
    using nd by (simp add: r)
next
  show "files_step (files s) (files (fst (step cfg w s ev)))" by (rule step_files)
next
  show "accounted s (fst (step cfg w s ev)) (snd (step cfg w s ev))" by (rule step_accounted)
next
  assume n: "files_sent (snd (step cfg w s ev)) = []"
  note r = accounted_no_send[OF step_accounted n]
  from r show "limits (fst (step cfg w s ev)) = limits s" by simp
  from r show "quiet_files (files s) (files (fst (step cfg w s ev)))" by simp
qed


theorem download_accounting_witness:
  "startsWith (js ''GET:'') (q_data (press (js ''7'') (js ''GET:F0001'')))
   \<and> find_file (arg1 (q_data (press (js ''7'') (js ''GET:F0001'')))) (files s_catalog) = Some 0
   \<and> int (getUserLimitCount w_nosend s_catalog (q_from (press (js ''7'') (js ''GET:F0001''))))
        < DAILY_LIMIT_NUM cfg_open
   \<and> downloads (files (fst (callback_query cfg_open w_nosend s_catalog
         (press (js ''7'') (js ''GET:F0001'')))) ! 0) = downloads (files s_catalog ! 0) + 1
   \<and> getUserLimitCount w_nosend (fst (callback_query cfg_open w_nosend s_catalog
         (press (js ''7'') (js ''GET:F0001'')))) (q_from (press (js ''7'') (js ''GET:F0001'')))
        = getUserLimitCount w_nosend s_catalog (q_from (press (js ''7'') (js ''GET:F0001''))) + 1
   \<and> m_from (typed (js ''7'') (js ''f0001'')) = Some (js ''7'')
   \<and> is_custom_id (trim (text_of (m_text (typed (js ''7'') (js ''f0001'')))))
   \<and> downloads (files (fst (on_message cfg_open w_nosend s_catalog
         (typed (js ''7'') (js ''f0001'')))) ! 0) = downloads (files s_catalog ! 0) + 1
   \<and> getUserLimitCount w_nosend (fst (on_message cfg_open w_nosend s_catalog
         (typed (js ''7'') (js ''f0001'')))) (js ''7'')
        = getUserLimitCount w_nosend s_catalog (js ''7'') + 1
   \<and> files_step (files s_catalog)
        (files (fst (step cfg_open w_nosend s_catalog (CmdDelete (typed (js ''1'') (js ''/delete f0001'')) (js ''f0001'')))))
   \<and> files_sent (snd (step cfg_open w_noack s_catalog
        (CallbackQuery (press (js ''7'') (js ''GET:F0001''))))) = []
   \<and> limits (fst (step cfg_open w_noack s_catalog
        (CallbackQuery (press (js ''7'') (js ''GET:F0001''))))) = limits s_catalog
   \<and> quiet_files (files s_catalog) (files (fst (step cfg_open w_noack s_catalog
        (CallbackQuery (press (js ''7'') (js ''GET:F0001''))))))
   \<and> accounted s_catalog
        (fst (step cfg_open w_nosend s_catalog (CallbackQuery (press (js ''7'') (js ''GET:F0001'')))))
        (snd (step cfg_open w_nosend s_catalog (CallbackQuery (press (js ''7'') (js ''GET:F0001'')))))"
proof -
  let ?q = "press (js ''7'') (js ''GET:F0001'')"
  let ?m = "typed (js ''7'') (js ''f0001'')"
  have a1: "startsWith (js ''GET:'') (q_data ?q)" by code_simp
  have a2: "verifyJoin cfg_open w_nosend s_catalog (q_chat ?q) (q_from ?q) = (True, s_catalog, [])"
    by (simp add: verifyJoin_def cfg_open_def)
  have a3: "find_file (arg1 (q_data ?q)) (files s_catalog) = Some 0" by code_simp
  have a4: "int (getUserLimitCount w_nosend s_catalog (q_from ?q)) < DAILY_LIMIT_NUM cfg_open"
    by (simp add: getUserLimitCount_def s_catalog_def s_empty_def cfg_open_def)
  have a5: "tg w_nosend (AnswerCallbackQuery (q_id ?q) SendingFile) = None"
    by (simp add: w_nosend_def)
  have b1: "m_from ?m = Some (js ''7'')" by (simp add: typed_def)
  have b2: "js ''7'' \<notin> ADMIN_SET cfg_open \<or> m_attachment ?m = None" by (simp add: typed_def)
  have b3: "is_custom_id (trim (text_of (m_text ?m)))" by code_simp
  have b4: "verifyJoin cfg_open w_nosend (saveUser s_catalog (js ''7'')) (m_chat ?m) (js ''7'')
      = (True, saveUser s_catalog (js ''7''), [])"
    by (simp add: verifyJoin_def cfg_open_def)
  have b5: "find_file (toUpperCase cfg_open (trim (text_of (m_text ?m)))) (files s_catalog) = Some 0"
    by code_simp
  have b6: "int (getUserLimitCount w_nosend s_catalog (js ''7'')) < DAILY_LIMIT_NUM cfg_open"
    by (simp add: getUserLimitCount_def s_catalog_def s_empty_def cfg_open_def)
  from download_accounting[where q="?q" and cfg=cfg_open and w=w_nosend and s=s_catalog
      and ?s1.0=s_catalog and cs="[]" and i=0 and m="?m" and u="js ''7''"
      and ?s2.0="saveUser s_catalog (js ''7'')" and ?cs2.0="[]" and j=0
      and ev="CmdDelete (typed (js ''1'') (js ''/delete f0001'')) (js ''f0001'')"]
    a1 a2 a3 a4 a5 b1 b2 b3 b4 b5 b6
  have c1: "downloads (files (fst (callback_query cfg_open w_nosend s_catalog ?q)) ! 0)
        = downloads (files s_catalog ! 0) + 1"
    and c2: "getUserLimitCount w_nosend (fst (callback_query cfg_open w_nosend s_catalog ?q))
        (q_from ?q) = getUserLimitCount w_nosend s_catalog (q_from ?q) + 1"
    and c3: "downloads (files (fst (on_message cfg_open w_nosend s_catalog ?m)) ! 0)
        = downloads (files s_catalog ! 0) + 1"
    and c4: "getUserLimitCount w_nosend (fst (on_message cfg_open w_nosend s_catalog ?m)) (js ''7'')
        = getUserLimitCount w_nosend s_catalog (js ''7'') + 1"
    and c5: "files_step (files s_catalog)
        (files (fst (step cfg_open w_nosend s_catalog
           (CmdDelete (typed (js ''1'') (js ''/delete f0001'')) (js ''f0001'')))))"
    by blast+
  have n: "files_sent (snd (step cfg_open w_noack s_catalog (CallbackQuery ?q))) = []"
    by code_simp
  from download_accounting[where cfg=cfg_open and w=w_noack and s=s_catalog
      and ev="CallbackQuery ?q"] n
  have d1: "limits (fst (step cfg_open w_noack s_catalog (CallbackQuery ?q))) = limits s_catalog"
    and d2: "quiet_files (files s_catalog)
        (files (fst (step cfg_open w_noack s_catalog (CallbackQuery ?q))))"
    by blast+
  from download_accounting[where cfg=cfg_open and w=w_nosend and s=s_catalog
      and ev="CallbackQuery ?q"]
  have d3: "accounted s_catalog (fst (step cfg_open w_nosend s_catalog (CallbackQuery ?q)))
        (snd (step cfg_open w_nosend s_catalog (CallbackQuery ?q)))"
    by blast
  from a1 a3 a4 c1 c2 b1 b3 c3 c4 c5 n d1 d2 d3 show ?thesis by blast
qed

text \<open>
  The claim as stated fails where the delivery itself fails: the \<open>downloads\<close>
  counter has already been incremented when the send is rejected, on the button path and
  on the typed-id path alike.
\<close>

theorem download_counted_despite_failed_delivery:
  "startsWith (js ''GET:'') (q_data (press (js ''7'') (js ''GET:F0001'')))
   \<and> map downloads (files s_catalog) = [0]
   \<and> \<not> delivered w_nosend (snd (callback_query cfg_open w_nosend s_catalog
            (press (js ''7'') (js ''GET:F0001''))))
   \<and> map downloads (files (fst (callback_query cfg_open w_nosend s_catalog
            (press (js ''7'') (js ''GET:F0001''))))) = [1]
   \<and> \<not> delivered w_nosend (snd (on_message cfg_open w_nosend s_catalog
            (typed (js ''7'') (js ''f0001''))))
   \<and> map downloads (files (fst (on_message cfg_open w_nosend s_catalog
            (typed (js ''7'') (js ''f0001''))))) = [1]"
  by code_simp

text \<open>
  Claim C4. Starting from a favorites ledger that respects its unique index and holds at
  most 50 entries per user, every sequence of events (toggles and all other handlers)
  leaves every user with at most 50 favorites. A toggle of an absent pair by a user who
  already has 50 is answered "Max 50 favorites" and changes nothing; a toggle of an
  existing pair deletes it and answers "Removed".
\<close>

theorem favorites_bounded:
  "(fav_inv s \<longrightarrow> fav_inv (fst (run cfg s tr))
       \<and> fav_count (favorites (fst (run cfg s tr))) u \<le> 50)
   \<and> (startsWith (js ''FAV:'') (q_data q)
       \<and> verifyJoin cfg w s (q_chat q) (q_from q) = (True, s1, cs)
       \<and> (q_from q, arg1 (q_data q)) \<notin> set (favorites s)
       \<and> 50 \<le> fav_count (favorites s) (q_from q)
      \<longrightarrow> callback_query cfg w s q = (s1, cs @ [AnswerCallbackQuery (q_id q) Max50Favorites])
        \<and> favorites s1 = favorites s)
   \<and> (startsWith (js ''FAV:'') (q_data q)
       \<and> verifyJoin cfg w s (q_chat q) (q_from q) = (True, s1, cs)
       \<and> (q_from q, arg1 (q_data q)) \<in> set (favorites s)
      \<longrightarrow> favorites (fst (callback_query cfg w s q))
            = remove1 (q_from q, arg1 (q_data q)) (favorites s)
        \<and> (distinct (favorites s)
            \<longrightarrow> (q_from q, arg1 (q_data q)) \<notin> set (favorites (fst (callback_query cfg w s q))))
        \<and> snd (callback_query cfg w s q)
            = cs @ awaited w q (AnswerCallbackQuery (q_id q) RemovedFromFavorites))"
proof (intro conjI impI)
  assume "fav_inv s"
  then show "fav_inv (fst (run cfg s tr))" by (rule run_inv)
  then show "fav_count (favorites (fst (run cfg s tr))) u \<le> 50" by (rule fav_inv_bound)
next
  assume a: "startsWith (js ''FAV:'') (q_data q)
       \<and> verifyJoin cfg w s (q_chat q) (q_from q) = (True, s1, cs)
       \<and> (q_from q, arg1 (q_data q)) \<notin> set (favorites s)
       \<and> 50 \<le> fav_count (favorites s) (q_from q)"
  then have g: "verifyJoin cfg w s (q_chat q) (q_from q) = (True, s1, cs)" by simp
  from a have ne: "q_data q \<noteq> js ''CHECK_JOIN''" by (simp add: not_check_join)
  note f = verifyJoin_fields[OF g]
  show "callback_query cfg w s q = (s1, cs @ [AnswerCallbackQuery (q_id q) Max50Favorites])"
    using a by (simp add: callback_query_gated[OF ne g] callback_actions_fav on_fav_def f)
  show "favorites s1 = favorites s" by (rule f)
next
  assume a: "startsWith (js ''FAV:'') (q_data q)
       \<and> verifyJoin cfg w s (q_chat q) (q_from q) = (True, s1, cs)
       \<and> (q_from q, arg1 (q_data q)) \<in> set (favorites s)"
  then have g: "verifyJoin cfg w s (q_chat q) (q_from q) = (True, s1, cs)" by simp
  from a have ne: "q_data q \<noteq> js ''CHECK_JOIN''" by (simp add: not_check_join)
  note f = verifyJoin_fields[OF g]
  show r: "favorites (fst (callback_query cfg w s q))
            = remove1 (q_from q, arg1 (q_data q)) (favorites s)"
    using a by (simp add: callback_query_gated[OF ne g] callback_actions_fav on_fav_def f)
  show "snd (callback_query cfg w s q)
            = cs @ awaited w q (AnswerCallbackQuery (q_id q) RemovedFromFavorites)"
    using a by (simp add: callback_query_gated[OF ne g] callback_actions_fav on_fav_def f)
  assume "distinct (favorites s)"
  then show "(q_from q, arg1 (q_data q)) \<notin> set (favorites (fst (callback_query cfg w s q)))"
    unfolding r by simp
qed


theorem favorites_bounded_witness:
  "fav_inv s_full
   \<and> fav_inv (fst (run cfg_open s_full
        [(w_ok, CallbackQuery (press (js ''7'') (js ''FAV:F0099''))),
         (w_ok, CallbackQuery (press (js ''7'') (js ''FAV:F0001'')))]))
   \<and> 50 \<le> fav_count (favorites s_full) (q_from (press (js ''7'') (js ''FAV:F0099'')))
   \<and> callback_query cfg_open w_ok s_full (press (js ''7'') (js ''FAV:F0099''))
        = (s_full, [AnswerCallbackQuery (q_id (press (js ''7'') (js ''FAV:F0099''))) Max50Favorites])
   \<and> (q_from (press (js ''7'') (js ''FAV:F0001'')), arg1 (q_data (press (js ''7'') (js ''FAV:F0001''))))
        \<in> set (favorites s_full)
   \<and> (q_from (press (js ''7'') (js ''FAV:F0001'')), arg1 (q_data (press (js ''7'') (js ''FAV:F0001''))))
        \<notin> set (favorites (fst (callback_query cfg_open w_ok s_full (press (js ''7'') (js ''FAV:F0001'')))))"
proof -
  let ?q = "press (js ''7'') (js ''FAV:F0099'')"
  let ?r = "press (js ''7'') (js ''FAV:F0001'')"
  let ?tr = "[(w_ok, CallbackQuery ?q), (w_ok, CallbackQuery ?r)]"
  have i: "fav_inv s_full" by code_simp
  have q1: "startsWith (js ''FAV:'') (q_data ?q)" by code_simp
  have q2: "verifyJoin cfg_open w_ok s_full (q_chat ?q) (q_from ?q) = (True, s_full, [])"
    by (simp add: verifyJoin_def cfg_open_def)
  have q3: "(q_from ?q, arg1 (q_data ?q)) \<notin> set (favorites s_full)" by code_simp
  have q4: "50 \<le> fav_count (favorites s_full) (q_from ?q)" by code_simp
  have r1: "startsWith (js ''FAV:'') (q_data ?r)" by code_simp
  have r2: "verifyJoin cfg_open w_ok s_full (q_chat ?r) (q_from ?r) = (True, s_full, [])"
    by (simp add: verifyJoin_def cfg_open_def)
  have r3: "(q_from ?r, arg1 (q_data ?r)) \<in> set (favorites s_full)" by code_simp
  have r4: "distinct (favorites s_full)" using i by (simp add: fav_inv_def)
  from favorites_bounded[where s=s_full and cfg=cfg_open and tr="?tr" and u="js ''7''"
      and q="?q" and w=w_ok and ?s1.0=s_full and cs="[]"] i q1 q2 q3 q4
  have c1: "fav_inv (fst (run cfg_open s_full ?tr))"
    and c2: "callback_query cfg_open w_ok s_full ?q
        = (s_full, [] @ [AnswerCallbackQuery (q_id ?q) Max50Favorites])"
    by blast+
  from favorites_bounded[where s=s_full and cfg=cfg_open and tr="?tr" and u="js ''7''"
      and q="?r" and w=w_ok and ?s1.0=s_full and cs="[]"] r1 r2 r3 r4
  have c3: "(q_from ?r, arg1 (q_data ?r))
      \<notin> set (favorites (fst (callback_query cfg_open w_ok s_full ?r)))"
    by blast
  from c2 have c2': "callback_query cfg_open w_ok s_full ?q
        = (s_full, [AnswerCallbackQuery (q_id ?q) Max50Favorites])" by simp
  from i c1 q4 c2' r3 c3 show ?thesis by blast
qed

text \<open>
  Claim C5. Along every sequence of events, from any state, the catalog ids assigned by
  successful publishes are strictly increasing in publish order (by their number), hence
  pairwise distinct, and each is above the value the sequence counter had at the start; the
  counter itself never decreases, and \<open>/delete\<close> does not touch it. So the id
  of a deleted record is never assigned again.
\<close>

theorem catalog_ids_strictly_increase:
  "sorted_wrt (<) (map id_number (published_ids (snd (run cfg s tr))))
   \<and> distinct (published_ids (snd (run cfg s tr)))
   \<and> list_all (\<lambda>c. seq_of s < id_number c) (published_ids (snd (run cfg s tr)))
   \<and> seq_of s \<le> seq_of (fst (run cfg s tr))
   \<and> counters (fst (on_delete cfg w s m x)) = counters s"
proof -
  note r = run_sequence[of s cfg tr]
  from r have srt: "sorted_wrt (<) (map id_number (published_ids (snd (run cfg s tr))))"
    by simp
  then have "distinct (map id_number (published_ids (snd (run cfg s tr))))"
    by (simp add: strict_sorted_iff)
  then have d: "distinct (published_ids (snd (run cfg s tr)))"
    by (simp add: distinct_map)
  from r have l: "list_all (\<lambda>c. seq_of s < id_number c) (published_ids (snd (run cfg s tr)))"
    by (simp add: list_all_iff)
  from r have m: "seq_of s \<le> seq_of (fst (run cfg s tr))" by simp
  have c: "counters (fst (on_delete cfg w s m x)) = counters s" by (rule simple_effects)
  from srt d l m c show ?thesis by blast
qed

text \<open>
  An administrator publishes a file (\<open>F0001\<close>), deletes it, and publishes
  another one: it becomes \<open>F0002\<close>.
\<close>

lemma reupload_after_delete_gets_fresh_id: "published_ids (snd (run cfg_open s_pending
   [(w_ok, CallbackQuery (press (js ''1'') (js ''CONFIRM:64b7f0c2a1d3e4f5a6b7c8d9''))),
    (w_ok, CmdDelete (typed (js ''1'') (js ''/delete F0001'')) (js ''F0001'')),
    (w_ok, Message (sent_file (js ''1'') (js ''AgAD2''))),
    (w_ok, CallbackQuery (press (js ''1'') (js ''CONFIRM:64b7f0c2a1d3e4f5a6b7c8d9'')))])) = [js ''F0001'', js ''F0002'']"
  by code_simp

text \<open>
  Claim C6. A download attempt by a user whose count for the current day has reached the
  daily limit is blocked without the download being accounted or served: the quota ledger
  is not incremented, no \<open>downloads\<close> counter is incremented and no file is
  delivered. This holds for the \<open>GET:\<close> button and for every message of that
  user, a typed catalog id included. (The gate in front of the check may still upsert the
  user and refresh the membership cache.)
\<close>

theorem quota_exceeded_blocks_download:
  "(startsWith (js ''GET:'') (q_data q)
      \<and> DAILY_LIMIT_NUM cfg \<le> int (getUserLimitCount w s (q_from q))
    \<longrightarrow> limits (fst (callback_query cfg w s q)) = limits s
      \<and> files (fst (callback_query cfg w s q)) = files s
      \<and> \<not> delivered w (snd (callback_query cfg w s q)))
   \<and> (m_from m = Some u \<and> DAILY_LIMIT_NUM cfg \<le> int (getUserLimitCount w s u)
    \<longrightarrow> limits (fst (on_message cfg w s m)) = limits s
      \<and> files (fst (on_message cfg w s m)) = files s
      \<and> \<not> delivered w (snd (on_message cfg w s m)))"
proof (intro conjI impI)
  assume a: "startsWith (js ''GET:'') (q_data q)
      \<and> DAILY_LIMIT_NUM cfg \<le> int (getUserLimitCount w s (q_from q))"
  then have ne: "q_data q \<noteq> js ''CHECK_JOIN''" by (simp add: not_check_join)
  obtain ok s1 cs where g: "verifyJoin cfg w s (q_chat q) (q_from q) = (ok, s1, cs)"
    by (cases "verifyJoin cfg w s (q_chat q) (q_from q)") auto
  note f = verifyJoin_fields[OF g] and nd = verifyJoin_quiet[OF g, where w'=w]
  have lim: "DAILY_LIMIT_NUM cfg \<le> int (getUserLimitCount w s1 (q_from q))"
    using a by (simp add: getUserLimitCount_cong[OF f(4)])
  have r: "limits (fst (callback_query cfg w s q)) = limits s
      \<and> files (fst (callback_query cfg w s q)) = files s
      \<and> \<not> delivered w (snd (callback_query cfg w s q))"
  proof (cases ok)
    case True
    with g a show ?thesis
      using on_get_blocked[OF lim, where w'=w] nd
      by (simp add: callback_query_gated[OF ne] callback_actions_get f)
  next
    case False
    with g show ?thesis using nd
      by (simp add: callback_query_blocked[OF ne] f)
  qed
  from r show "limits (fst (callback_query cfg w s q)) = limits s" by simp
  from r show "files (fst (callback_query cfg w s q)) = files s" by simp
  from r show "\<not> delivered w (snd (callback_query cfg w s q))" by simp
next
  assume a: "m_from m = Some u \<and> DAILY_LIMIT_NUM cfg \<le> int (getUserLimitCount w s u)"
  let ?t = "trim (text_of (m_text m))"
  obtain ok s1 cs where g: "verifyJoin cfg w (saveUser s u) (m_chat m) u = (ok, s1, cs)"
    by (cases "verifyJoin cfg w (saveUser s u) (m_chat m) u") auto
  note f = verifyJoin_fields[OF g] and nd = verifyJoin_quiet[OF g, where w'=w]
  have lim: "DAILY_LIMIT_NUM cfg \<le> int (getUserLimitCount w s1 u)"
    using a f(4) by (simp add: getUserLimitCount_def)
  note sb = search_by_id_blocked[OF lim, where w'=w and chat="m_chat m" and t="?t"]
  note ks = keyword_search_frame[where cfg=cfg and w=w and s=s1 and chat="m_chat m" and u=u and t="?t"]
  have r: "limits (fst (on_message cfg w s m)) = limits s
      \<and> files (fst (on_message cfg w s m)) = files s
      \<and> \<not> delivered w (snd (on_message cfg w s m))"
    using a g nd sb ks(1,2) ks(6)[where w'=w] f(2,4)
    by (auto simp: on_message_def Let_def upload_frame case_prod_beta split: option.splits)
  from r show "limits (fst (on_message cfg w s m)) = limits s" by simp
  from r show "files (fst (on_message cfg w s m)) = files s" by simp
  from r show "\<not> delivered w (snd (on_message cfg w s m))" by simp
qed


theorem quota_exceeded_blocks_download_witness:
  "startsWith (js ''GET:'') (q_data (press (js ''7'') (js ''GET:F0001'')))
   \<and> DAILY_LIMIT_NUM cfg_open
        \<le> int (getUserLimitCount w_ok s_spent (q_from (press (js ''7'') (js ''GET:F0001''))))
   \<and> limits (fst (callback_query cfg_open w_ok s_spent (press (js ''7'') (js ''GET:F0001''))))
        = limits s_spent
   \<and> files (fst (callback_query cfg_open w_ok s_spent (press (js ''7'') (js ''GET:F0001''))))
        = files s_spent
   \<and> \<not> delivered w_ok (snd (callback_query cfg_open w_ok s_spent (press (js ''7'') (js ''GET:F0001''))))
   \<and> m_from (typed (js ''7'') (js ''f0001'')) = Some (js ''7'')
   \<and> DAILY_LIMIT_NUM cfg_open \<le> int (getUserLimitCount w_ok s_spent (js ''7''))
   \<and> limits (fst (on_message cfg_open w_ok s_spent (typed (js ''7'') (js ''f0001'')))) = limits s_spent
   \<and> files (fst (on_message cfg_open w_ok s_spent (typed (js ''7'') (js ''f0001'')))) = files s_spent
   \<and> \<not> delivered w_ok (snd (on_message cfg_open w_ok s_spent (typed (js ''7'') (js ''f0001''))))"
proof -
  have h1: "startsWith (js ''GET:'') (q_data (press (js ''7'') (js ''GET:F0001'')))"
    by (simp add: startsWith_def press_def js_def)
  have h2: "DAILY_LIMIT_NUM cfg_open \<le> int (getUserLimitCount w_ok s_spent (js ''7''))"
    by (simp add: cfg_open_def getUserLimitCount_def w_ok_def s_spent_def)
  have h3: "q_from (press (js ''7'') (js ''GET:F0001'')) = js ''7''"
    by (simp add: press_def)
  have h4: "m_from (typed (js ''7'') (js ''f0001'')) = Some (js ''7'')"
    by (simp add: typed_def)
  from quota_exceeded_blocks_download[of "press (js ''7'') (js ''GET:F0001'')" cfg_open w_ok
      s_spent "typed (js ''7'') (js ''f0001'')" "js ''7''"] h1 h2 h4
  show ?thesis unfolding h3 by blast
qed

text \<open>
  What \<^verbatim>\<open>verifyJoin\<close> computes, case by case: administrators and an unset
  channel pass without any query; a cache hit returns the cached verdict; a membership
  query that raises lets the caller pass; a fresh member verdict is cached for 300 seconds
  and passes; a fresh non-member verdict is cached for 60 seconds and the join prompt is
  sent, and then the verdict depends on whether the platform accepted the prompt.
\<close>

lemma verifyJoin_verdicts:
  "(u \<in> ADMIN_SET cfg \<longrightarrow> verifyJoin cfg w s chat u = (True, s, []))
   \<and> (FORCE_CHANNEL_ID cfg = None \<or> FORCE_CHANNEL_ID cfg = Some []
        \<longrightarrow> verifyJoin cfg w s chat u = (True, s, []))
   \<and> (FORCE_CHANNEL_ID cfg = Some channel \<and> channel \<noteq> [] \<and> u \<notin> ADMIN_SET cfg
        \<and> member_cache s u = Some (cached, ttl) \<and> cached \<noteq> []
        \<longrightarrow> verifyJoin cfg w s chat u = (cached = js ''true'', s, []))
   \<and> (FORCE_CHANNEL_ID cfg = Some channel \<and> channel \<noteq> [] \<and> u \<notin> ADMIN_SET cfg
        \<and> member_cache s u = None \<and> getChatMember w channel u = Inl err
        \<longrightarrow> verifyJoin cfg w s chat u = (True, s, []))
   \<and> (FORCE_CHANNEL_ID cfg = Some channel \<and> channel \<noteq> [] \<and> u \<notin> ADMIN_SET cfg
        \<and> member_cache s u = None \<and> getChatMember w channel u = Inr status
        \<and> status \<in> set member_statuses
        \<longrightarrow> fst (verifyJoin cfg w s chat u)
          \<and> member_cache (fst (snd (verifyJoin cfg w s chat u))) u = Some (js ''true'', 300))
   \<and> (FORCE_CHANNEL_ID cfg = Some channel \<and> channel \<noteq> [] \<and> u \<notin> ADMIN_SET cfg
        \<and> member_cache s u = None \<and> getChatMember w channel u = Inr status
        \<and> status \<notin> set member_statuses
        \<longrightarrow> member_cache (fst (snd (verifyJoin cfg w s chat u))) u = Some (js ''false'', 60)
          \<and> SendMessage (Chat chat) JoinPrompt \<in> set (snd (snd (verifyJoin cfg w s chat u)))
          \<and> fst (verifyJoin cfg w s chat u) = (tg w (SendMessage (Chat chat) JoinPrompt) \<noteq> None))"
  by (auto simp: verifyJoin_def query_membership_def Let_def String_of_bool_def
      split: option.splits)

lemma verifyJoin_verdicts_examples:
  "js ''1'' \<in> ADMIN_SET cfg_gated
   \<and> verifyJoin cfg_gated w_ok s_empty 5 (js ''1'') = (True, s_empty, [])
   \<and> FORCE_CHANNEL_ID cfg_open = None
   \<and> verifyJoin cfg_open w_ok s_empty 5 (js ''7'') = (True, s_empty, [])
   \<and> member_cache s_cached (js ''7'') = Some (js ''false'', 60)
   \<and> verifyJoin cfg_gated w_ok s_cached 5 (js ''7'') = (js ''false'' = js ''true'', s_cached, [])
   \<and> getChatMember w_blind (js ''@movies'') (js ''7'') = Inl OtherFailure
   \<and> verifyJoin cfg_gated w_blind s_empty 5 (js ''7'') = (True, s_empty, [])
   \<and> getChatMember w_ok (js ''@movies'') (js ''7'') = Inr (js ''left'')
   \<and> js ''left'' \<notin> set member_statuses
   \<and> member_cache (fst (snd (verifyJoin cfg_gated w_ok s_empty 5 (js ''7'')))) (js ''7'')
        = Some (js ''false'', 60)
   \<and> fst (verifyJoin cfg_gated w_ok s_empty 5 (js ''7''))
        = (tg w_ok (SendMessage (Chat 5) JoinPrompt) \<noteq> None)
   \<and> getChatMember w_member (js ''@movies'') (js ''7'') = Inr (js ''member'')
   \<and> fst (verifyJoin cfg_gated w_member s_empty 5 (js ''7''))"
proof -
  have c: "FORCE_CHANNEL_ID cfg_gated = Some (js ''@movies'')" "js ''@movies'' \<noteq> []"
    "js ''7'' \<notin> ADMIN_SET cfg_gated"
    by (simp_all add: cfg_gated_def cfg_open_def js_def)
  have h1: "js ''1'' \<in> ADMIN_SET cfg_gated" by (simp add: cfg_gated_def cfg_open_def)
  have h2: "FORCE_CHANNEL_ID cfg_open = None" by (simp add: cfg_open_def)
  have h3: "member_cache s_cached (js ''7'') = Some (js ''false'', 60)" "js ''false'' \<noteq> []"
    by (simp_all add: s_cached_def js_def)
  have h4: "member_cache s_empty (js ''7'') = None" by (simp add: s_empty_def)
  have h5: "getChatMember w_blind (js ''@movies'') (js ''7'') = Inl OtherFailure"
    by (simp add: w_blind_def)
  have h6: "getChatMember w_ok (js ''@movies'') (js ''7'') = Inr (js ''left'')"
    by (simp add: w_ok_def)
  have h7: "js ''left'' \<notin> set member_statuses" by (simp add: member_statuses_def js_def)
  have h8: "getChatMember w_member (js ''@movies'') (js ''7'') = Inr (js ''member'')"
    by (simp add: w_member_def)
  have h9: "js ''member'' \<in> set member_statuses" by (simp add: member_statuses_def)
  from verifyJoin_verdicts[where u="js ''1''" and cfg=cfg_gated and w=w_ok and s=s_empty and chat=5] h1
  have r1: "verifyJoin cfg_gated w_ok s_empty 5 (js ''1'') = (True, s_empty, [])" by blast
  from verifyJoin_verdicts[where u="js ''7''" and cfg=cfg_open and w=w_ok and s=s_empty and chat=5] h2
  have r2: "verifyJoin cfg_open w_ok s_empty 5 (js ''7'') = (True, s_empty, [])" by blast
  from verifyJoin_verdicts[where u="js ''7''" and cfg=cfg_gated and w=w_ok and s=s_cached
      and chat=5 and channel="js ''@movies''" and cached="js ''false''" and ttl=60] c h3
  have r3: "verifyJoin cfg_gated w_ok s_cached 5 (js ''7'') = (js ''false'' = js ''true'', s_cached, [])"
    by blast
  from verifyJoin_verdicts[where u="js ''7''" and cfg=cfg_gated and w=w_blind and s=s_empty
      and chat=5 and channel="js ''@movies''" and err=OtherFailure] c h4 h5
  have r4: "verifyJoin cfg_gated w_blind s_empty 5 (js ''7'') = (True, s_empty, [])" by blast
  from verifyJoin_verdicts[where u="js ''7''" and cfg=cfg_gated and w=w_ok and s=s_empty
      and chat=5 and channel="js ''@movies''" and status="js ''left''"] c h4 h6 h7
  have r5: "member_cache (fst (snd (verifyJoin cfg_gated w_ok s_empty 5 (js ''7'')))) (js ''7'')
        = Some (js ''false'', 60)"
    and r6: "fst (verifyJoin cfg_gated w_ok s_empty 5 (js ''7''))
        = (tg w_ok (SendMessage (Chat 5) JoinPrompt) \<noteq> None)" by blast+
  from verifyJoin_verdicts[where u="js ''7''" and cfg=cfg_gated and w=w_member and s=s_empty
      and chat=5 and channel="js ''@movies''" and status="js ''member''"] c h4 h8 h9
  have r7: "fst (verifyJoin cfg_gated w_member s_empty 5 (js ''7''))" by blast
  from h1 r1 h2 r2 h3(1) r3 h5 r4 h6 h7 r5 r6 h8 r7 show ?thesis by blast
qed

text \<open>
  Claim C7 at a failing input. With a channel configured, user 7 is neither an
  administrator nor cached, and the membership query answers "left": a fresh non-member
  verdict. The handler caches \<open>false\<close> for 60 seconds and means to refuse, but
  the platform rejects the join prompt, the rejection lands in the handler written for a
  failing membership query, and the caller passes. The next check of the same user, by
  then a cache hit, refuses.
\<close>

theorem nonmember_passes_when_prompt_fails:
  "FORCE_CHANNEL_ID cfg_gated = Some (js ''@movies'')
   \<and> js ''7'' \<notin> ADMIN_SET cfg_gated
   \<and> member_cache s_empty (js ''7'') = None
   \<and> getChatMember w_noprompt (js ''@movies'') (js ''7'') = Inr (js ''left'')
   \<and> js ''left'' \<notin> set member_statuses
   \<and> tg w_noprompt (SendMessage (Chat 5) JoinPrompt) = Some Forbidden
   \<and> fst (verifyJoin cfg_gated w_noprompt s_empty 5 (js ''7'')) = True
   \<and> member_cache (fst (snd (verifyJoin cfg_gated w_noprompt s_empty 5 (js ''7'')))) (js ''7'')
        = Some (js ''false'', 60)
   \<and> fst (verifyJoin cfg_gated w_noprompt
        (fst (snd (verifyJoin cfg_gated w_noprompt s_empty 5 (js ''7'')))) 5 (js ''7'')) = False"
  by code_simp

text \<open>
  Claim C9 at a failing input. The broadcast loop does attempt every user whatever the
  earlier outcomes (\<open>broadcast_attempts_everyone\<close>), but it counts a failure
  only when its status is 403: two recipients whose sends fail otherwise are reported as
  "Sent: 0, Blocked/Failed: 0", so the tallies do not account for them.
\<close>

theorem broadcast_tally_misses_failures:
  "users s_two_users = [js ''7'', js ''8'']
   \<and> tg w_unreachable (SendMessage (Recipient (js ''7'')) (Literal (js ''hi''))) = Some OtherFailure
   \<and> tg w_unreachable (SendMessage (Recipient (js ''8'')) (Literal (js ''hi''))) = Some OtherFailure
   \<and> snd (on_broadcast cfg_open w_unreachable s_two_users
        (typed (js ''1'') (js ''/broadcast hi'')) (Some (js ''hi'')))
      = [SendMessage (Chat 5) (Broadcasting 2),
         SendMessage (Recipient (js ''7'')) (Literal (js ''hi'')),
         SendMessage (Recipient (js ''8'')) (Literal (js ''hi'')),
         EditMessageText 5 77 (BroadcastComplete 0 0)]"
  by code_simp

text \<open>
  Claim C10. The favorites toggle never consults the catalog: toggling an id that no
  catalog record carries (deleted or never published) inserts the favorite all the same,
  and the catalog still has no such record afterwards. Deleting a file removes no favorite.
  So the ledger may reference absent files; the \<open>/favorites\<close> view lists only
  ids of records that are in the catalog.
\<close>

theorem favorites_may_dangle:
  "(startsWith (js ''FAV:'') (q_data q)
       \<and> verifyJoin cfg w s (q_chat q) (q_from q) = (True, s1, cs)
       \<and> find_file (arg1 (q_data q)) (files s) = None
       \<and> (q_from q, arg1 (q_data q)) \<notin> set (favorites s)
       \<and> fav_count (favorites s) (q_from q) < 50
      \<longrightarrow> favorites (fst (callback_query cfg w s q))
            = favorites s @ [(q_from q, arg1 (q_data q))]
        \<and> files (fst (callback_query cfg w s q)) = files s
        \<and> arg1 (q_data q) \<notin> customId ` set (files (fst (callback_query cfg w s q))))
   \<and> favorites (fst (on_delete cfg w s m x)) = favorites s
   \<and> (SendMessage (Chat (m_chat m)) (YourFavorites n ids) \<in> set (snd (on_favorites cfg w s m))
      \<longrightarrow> set ids \<subseteq> customId ` set (files s))"
proof (intro conjI impI)
  assume a: "startsWith (js ''FAV:'') (q_data q)
       \<and> verifyJoin cfg w s (q_chat q) (q_from q) = (True, s1, cs)
       \<and> find_file (arg1 (q_data q)) (files s) = None
       \<and> (q_from q, arg1 (q_data q)) \<notin> set (favorites s)
       \<and> fav_count (favorites s) (q_from q) < 50"
  then have g: "verifyJoin cfg w s (q_chat q) (q_from q) = (True, s1, cs)" by simp
  from a have ne: "q_data q \<noteq> js ''CHECK_JOIN''" by (simp add: not_check_join)
  note f = verifyJoin_fields[OF g]
  show "favorites (fst (callback_query cfg w s q)) = favorites s @ [(q_from q, arg1 (q_data q))]"
    using a by (simp add: callback_query_gated[OF ne g] callback_actions_fav on_fav_def f)
  show fs: "files (fst (callback_query cfg w s q)) = files s"
    using a by (simp add: callback_query_gated[OF ne g] callback_actions_fav on_fav_effect f)
  from a have "arg1 (q_data q) \<notin> customId ` set (files s)" using find_file_None by blast
  then show "arg1 (q_data q) \<notin> customId ` set (files (fst (callback_query cfg w s q)))"
    by (simp add: fs)
next
  show "favorites (fst (on_delete cfg w s m x)) = favorites s" by (rule simple_effects)
next
  assume a: "SendMessage (Chat (m_chat m)) (YourFavorites n ids) \<in> set (snd (on_favorites cfg w s m))"
  show "set ids \<subseteq> customId ` set (files s)"
  proof (cases "m_from m")
    case None
    with a show ?thesis by (simp add: on_favorites_def)
  next
    case (Some u)
    obtain ok s1 cs where g: "verifyJoin cfg w (saveUser s u) (m_chat m) u = (ok, s1, cs)"
      by (cases "verifyJoin cfg w (saveUser s u) (m_chat m) u") auto
    note f = verifyJoin_fields[OF g]
    from f(2) have fs: "files s1 = files s" by simp
    have nc: "SendMessage (Chat (m_chat m)) (YourFavorites n ids) \<notin> set cs"
      using verifyJoin_calls[OF g] by fastforce
    let ?found = "filter (\<lambda>f. customId f \<in> set (map snd (filter (\<lambda>d. fst d = u) (favorites s1))))
        (files s)"
    from a nc have "ids = map customId (take 10 ?found)"
      by (auto simp: on_favorites_def Some g Let_def fs split: if_splits)
    then have "set ids \<subseteq> customId ` set ?found"
      by (auto dest: in_set_takeD)
    then show ?thesis by auto
  qed
qed

theorem favorites_may_dangle_witness:
  "startsWith (js ''FAV:'') (q_data (press (js ''7'') (js ''FAV:F0002'')))
   \<and> find_file (arg1 (q_data (press (js ''7'') (js ''FAV:F0002'')))) (files s_catalog) = None
   \<and> favorites (fst (callback_query cfg_open w_ok s_catalog (press (js ''7'') (js ''FAV:F0002''))))
        = favorites s_catalog @ [(q_from (press (js ''7'') (js ''FAV:F0002'')),
                                  arg1 (q_data (press (js ''7'') (js ''FAV:F0002''))))]
   \<and> SendMessage (Chat (m_chat (typed (js ''7'') (js ''/favorites''))))
          (YourFavorites 1 [js ''F0001''])
        \<in> set (snd (on_favorites cfg_open w_ok s_dangling (typed (js ''7'') (js ''/favorites''))))
   \<and> set [js ''F0001''] \<subseteq> customId ` set (files s_dangling)
   \<and> (js ''7'', js ''F0002'') \<in> set (favorites s_dangling)"
proof -
  let ?q = "press (js ''7'') (js ''FAV:F0002'')"
  let ?m = "typed (js ''7'') (js ''/favorites'')"
  have q1: "startsWith (js ''FAV:'') (q_data ?q)" by code_simp
  have q2: "verifyJoin cfg_open w_ok s_catalog (q_chat ?q) (q_from ?q) = (True, s_catalog, [])"
    by (simp add: verifyJoin_def cfg_open_def)
  have q3: "find_file (arg1 (q_data ?q)) (files s_catalog) = None" by code_simp
  have q4: "(q_from ?q, arg1 (q_data ?q)) \<notin> set (favorites s_catalog)" by code_simp
  have q5: "fav_count (favorites s_catalog) (q_from ?q) < 50" by code_simp
  have m1: "SendMessage (Chat (m_chat ?m)) (YourFavorites 1 [js ''F0001''])
      \<in> set (snd (on_favorites cfg_open w_ok s_dangling ?m))" by code_simp
  have m2: "(js ''7'', js ''F0002'') \<in> set (favorites s_dangling)" by code_simp
  from favorites_may_dangle[where q="?q" and cfg=cfg_open and w=w_ok and s=s_catalog
      and ?s1.0=s_catalog and cs="[]"] q1 q2 q3 q4 q5
  have c1: "favorites (fst (callback_query cfg_open w_ok s_catalog ?q))
      = favorites s_catalog @ [(q_from ?q, arg1 (q_data ?q))]" by blast
  from favorites_may_dangle[where cfg=cfg_open and w=w_ok and s=s_dangling and m="?m"
      and n=1 and ids="[js ''F0001'']"] m1
  have c2: "set [js ''F0001''] \<subseteq> customId ` set (files s_dangling)" by blast
  from q1 q3 c1 m1 c2 m2 show ?thesis by blast
qed

end
